theory Spec2Isabelle
  imports Main "HOL-Library.Word" "HOL-Library.AList"
begin

unbundle bit_operations_syntax

section \<open>The controller datastore: data model\<close>

text \<open>
  A shallow embedding of \<^verbatim>\<open>ciao-controller/internal/datastore/datastore.go\<close>.
  Conventions:
  \<^item> every lock-protected section is one atomic step, so an operation is a function from
    the datastore to the datastore after the call (locks and goroutines that only write to
    the persistent store leave the in-memory maps alone and are not part of the state);
  \<^item> a Go map that the code only indexes is a partial function; a Go map that the code
    ranges over is an association list, ranged over in list order (one of the orders the
    Go runtime may choose), read with \<open>map_of\<close> and written with \<open>AList.update\<close>;
  \<^item> a run-time panic is the value \<open>Panic\<close>, with its kind;
  \<^item> usage counters are Go \<^verbatim>\<open>int\<close>s that the code adds and subtracts: they are 64-bit
    words, so that \<open>+\<close> and \<open>-\<close> wrap, and so is the loop counter of the host probe;
    subnet and host indices, as map keys and list elements, are \<open>int\<close> (the code stores
    there values converted from bytes and from \<^verbatim>\<open>uint16\<close>);
  \<^item> a point in time is a whole number of nanoseconds;
  \<^item> an absent key and a nil pointer stored under a key are both \<open>None\<close>; the maps inside a
    tenant or a node are never nil.
\<close>

type_synonym goint = "64 word"
type_synonym byte = "8 word"
type_synonym uint16 = "16 word"
type_synonym time = int

datatype panic = NilPointerDereference | NilMapAssignment | SliceBoundsOutOfRange

datatype 'a outcome = Panic panic | Return 'a

datatype error =
    ErrNoTenant | ErrNoBlockData | ErrNoStorageAttachment
  | InvalidIPv4Address | UnableToConvertIP
  | OutOfSubnets | RanOutOfHostNumbers
  | InstanceNotFound
  | StoreError string

datatype BlockState = Available | Attaching | InUse | Detaching

record Resource =
  Rname :: string
  Rtype :: goint
  Limit :: goint
  Usage :: goint

record Instance =
  Instance_ID :: string
  Instance_TenantID :: string
  Instance_NodeID :: string
  Instance_State :: string
  Instance_IPAddress :: string
  Instance_Usage :: "(string \<times> goint) list"
  SSHIP :: string
  SSHPort :: goint

record BlockData =
  BlockData_ID :: string
  BlockData_TenantID :: string
  BlockData_State :: BlockState
  Size :: goint

record StorageAttachment =
  InstanceID :: string
  StorageAttachment_ID :: string
  BlockID :: string

record attachment =
  attachment_instanceID :: string
  attachment_volumeID :: string

record tenant =
  Tenant_ID :: string
  CNCIID :: string
  CNCIMAC :: string
  CNCIIP :: string
  Resources :: "Resource list"
  network :: "int \<rightharpoonup> (int \<rightharpoonup> bool)"
  subnets :: "int list"
  tenant_instances :: "string \<rightharpoonup> Instance"
  devices :: "string \<rightharpoonup> BlockData"

record node =
  Node_ID :: string
  Hostname :: string
  node_instances :: "string \<rightharpoonup> Instance"

record CiaoUsage =
  VCPU :: goint
  Memory :: goint
  Disk :: goint
  Timestamp :: time

record CiaoServerStats =
  Stats_ID :: string
  Stats_TenantID :: string
  Stats_NodeID :: string
  Stats_Timestamp :: time
  Status :: string
  VCPUUsage :: goint
  MemUsage :: goint
  DiskUsage :: goint

text \<open>
  The persistent store is an interface whose implementation is outside the datastore: the
  model takes the results of its calls as functions of their arguments, and keeps the
  events handed to \<^verbatim>\<open>logEvent\<close> as a list (tenant, severity, message), newest last.
\<close>

record persistentStore =
  releaseTenantIP_db :: "string \<Rightarrow> int \<Rightarrow> int \<Rightarrow> error option"
  removeInstance_db :: "string \<Rightarrow> error option"
  updateTenant_db :: "tenant \<Rightarrow> error option"
  createStorageAttachment_db :: "StorageAttachment \<Rightarrow> error option"

datatype chan = NilChan | Chan nat

record Datastore =
  db :: persistentStore
  eventLog :: "(string \<times> string \<times> string) list"
  cnciAddedChans :: "string \<rightharpoonup> chan"
  sent :: "(nat \<times> bool) list"
  instanceLastStat :: "string \<rightharpoonup> CiaoServerStats"
  tenants :: "(string \<times> tenant) list"
  allSubnets :: "int \<rightharpoonup> bool"
  nodes :: "string \<rightharpoonup> node"
  instances :: "string \<rightharpoonup> Instance"
  tenantUsage :: "string \<rightharpoonup> CiaoUsage list"
  blockDevices :: "string \<rightharpoonup> BlockData"
  attachments :: "string \<rightharpoonup> StorageAttachment"
  instanceVolumes :: "(attachment \<times> string) list"

definition userInfo :: string where "userInfo = ''info''"
definition userWarn :: string where "userWarn = ''warn''"
definition userError :: string where "userError = ''error''"

definition logEvent :: "Datastore \<Rightarrow> string \<Rightarrow> string \<Rightarrow> string \<Rightarrow> Datastore" where
  "logEvent ds tenantID eventType message =
     ds\<lparr>eventLog := eventLog ds @ [(tenantID, eventType, message)]\<rparr>"

section \<open>Tenant usage history\<close>

text \<open>
  \<^verbatim>\<open>time.Since(t).Minutes() < tenantUsagePeriodMinutes\<close> compares a duration, a whole number
  of nanoseconds, with five minutes; on whole nanoseconds the floating-point quotient is
  below 5 exactly when the duration is below \<open>5 * Minute\<close>. The two clock readings of one
  call (inside \<^verbatim>\<open>time.Since\<close> and the later \<^verbatim>\<open>time.Now()\<close>) are the arguments
  \<open>since\<close> and \<open>now\<close>.
\<close>

definition Minute :: int where
  "Minute = 60 * 1000000000"

definition tenantUsagePeriodMinutes :: int where
  "tenantUsagePeriodMinutes = 5"

definition zeroUsage :: CiaoUsage where
  "zeroUsage = \<lparr>VCPU = 0, Memory = 0, Disk = 0, Timestamp = 0\<rparr>"

definition updateTenantUsageNeeded :: "CiaoUsage \<Rightarrow> string \<Rightarrow> bool" where
  "updateTenantUsageNeeded delta tenantID =
     (if VCPU delta = 0 \<and> Memory delta = 0 \<and> Disk delta = 0 then False else True)"

definition updateTenantUsage :: "Datastore \<Rightarrow> CiaoUsage \<Rightarrow> string \<Rightarrow> time \<Rightarrow> time \<Rightarrow> Datastore" where
  "updateTenantUsage ds delta tenantID since now =
     (if updateTenantUsageNeeded delta tenantID = False then ds
      else
        let usage = (case tenantUsage ds tenantID of None \<Rightarrow> [] | Some us \<Rightarrow> us);
            lastUsage = (if length usage \<noteq> 0 then last usage else zeroUsage);
            createNewUsage =
              (if length usage \<noteq> 0 \<and> since - Timestamp lastUsage < tenantUsagePeriodMinutes * Minute
               then False else True);
            newUsage = \<lparr>VCPU = VCPU lastUsage + VCPU delta,
                        Memory = Memory lastUsage + Memory delta,
                        Disk = Disk lastUsage + Disk delta,
                        Timestamp = 0\<rparr>
        in if createNewUsage = True
           then ds\<lparr>tenantUsage := (tenantUsage ds)(tenantID \<mapsto> usage @ [newUsage\<lparr>Timestamp := now\<rparr>])\<rparr>
           else ds\<lparr>tenantUsage := (tenantUsage ds)(tenantID \<mapsto>
                     usage[length usage - 1 := newUsage\<lparr>Timestamp := Timestamp lastUsage\<rparr>])\<rparr>)"

text \<open>
  \<^verbatim>\<open>GetTenantUsage\<close>: the loop counts the samples strictly before each bound, and the
  result is the slice \<^verbatim>\<open>tenantUsage[first:last]\<close>, which panics unless
  \<open>first \<le> last \<le> len\<close>. A nil slice and an empty slice are both \<open>[]\<close>.
\<close>

fun countBefore :: "time \<Rightarrow> time \<Rightarrow> CiaoUsage list \<Rightarrow> nat \<times> nat \<Rightarrow> nat \<times> nat" where
  "countBefore start end [] (first, lst) = (first, lst)"
| "countBefore start end (u # us) (first, lst) =
     countBefore start end us
       (if start > Timestamp u then first + 1 else first,
        if end > Timestamp u then lst + 1 else lst)"

definition subslice :: "'a list \<Rightarrow> nat \<Rightarrow> nat \<Rightarrow> 'a list outcome" where
  "subslice xs lo hi =
     (if lo \<le> hi \<and> hi \<le> length xs then Return (take (hi - lo) (drop lo xs))
      else Panic SliceBoundsOutOfRange)"

definition GetTenantUsage :: "Datastore \<Rightarrow> string \<Rightarrow> time \<Rightarrow> time \<Rightarrow> (CiaoUsage list \<times> error option) outcome" where
  "GetTenantUsage ds tenantID start end =
     (let usage = (case tenantUsage ds tenantID of None \<Rightarrow> [] | Some us \<Rightarrow> us)
      in if length usage = 0 then Return ([], None)
         else if Timestamp (usage ! 0) > end \<or> start > Timestamp (usage ! (length usage - 1))
         then Return ([], None)
         else case countBefore start end usage (0, 0) of
                (first, lst) \<Rightarrow>
                  (case subslice usage first lst of
                     Panic p \<Rightarrow> Panic p
                   | Return us \<Rightarrow> Return (us, None)))"

section \<open>The tenant IP allocator\<close>

text \<open>
  \<^verbatim>\<open>net.ParseIP\<close> followed by \<^verbatim>\<open>To4\<close> is library code: \<open>IPnil\<close> is the nil result of
  \<^verbatim>\<open>ParseIP\<close>, \<open>IP16\<close> an address with no 4-byte form, \<open>IP4\<close> the four bytes. The parser
  itself is the parameter \<open>parseIP\<close> of the operations that take an address string.
\<close>

datatype IP = IPnil | IP16 | IP4 byte byte byte byte

text \<open>\<^verbatim>\<open>binary.BigEndian.Uint16\<close> and \<^verbatim>\<open>binary.BigEndian.PutUint16\<close> on a two-byte slice.\<close>

definition Uint16 :: "byte \<Rightarrow> byte \<Rightarrow> uint16" where
  "Uint16 b0 b1 = ucast b1 OR push_bit 8 (ucast b0)"

definition PutUint16 :: "uint16 \<Rightarrow> byte \<times> byte" where
  "PutUint16 v = (ucast (drop_bit 8 v), ucast v)"

text \<open>Reading a \<^verbatim>\<open>map[int]bool\<close>: a missing key reads as \<^verbatim>\<open>false\<close>.\<close>

definition lookupBool :: "('k \<rightharpoonup> bool) \<Rightarrow> 'k \<Rightarrow> bool" where
  "lookupBool m k = (case m k of None \<Rightarrow> False | Some b \<Rightarrow> b)"

text \<open>\<^verbatim>\<open>len(network[k])\<close>: the number of keys, 0 for the nil map of a missing subnet.\<close>

definition len :: "('k \<rightharpoonup> 'v) option \<Rightarrow> nat" where
  "len m = (case m of None \<Rightarrow> 0 | Some h \<Rightarrow> card (dom h))"

definition ReleaseTenantIP ::
  "(string \<Rightarrow> IP) \<Rightarrow> Datastore \<Rightarrow> string \<Rightarrow> string \<Rightarrow> (Datastore \<times> error option) outcome" where
  "ReleaseTenantIP parseIP ds tenantID ip =
     (case parseIP ip of
        IPnil \<Rightarrow> Return (ds, Some InvalidIPv4Address)
      | IP16 \<Rightarrow> Return (ds, Some UnableToConvertIP)
      | IP4 a0 a1 a2 a3 \<Rightarrow>
          let subnetInt = Uint16 a1 a2
          in (case map_of (tenants ds) tenantID of
                None \<Rightarrow>
                  Return (ds, releaseTenantIP_db (db ds) tenantID (uint subnetInt) (uint a3))
              | Some t \<Rightarrow>
                  (case network t (uint subnetInt) of
                     None \<Rightarrow> Panic NilMapAssignment
                   | Some hosts \<Rightarrow>
                       Return
                         (ds\<lparr>tenants := AList.update tenantID
                               (t\<lparr>network := (network t)(uint subnetInt \<mapsto> hosts(uint a3 \<mapsto> False))\<rparr>)
                               (tenants ds)\<rparr>,
                          releaseTenantIP_db (db ds) tenantID (uint subnetInt) (uint a3)))))"

text \<open>The scan of the tenant's sorted subnets: the last one with fewer than 253 keys wins.\<close>

fun scanSubnets :: "(int \<rightharpoonup> (int \<rightharpoonup> bool)) \<Rightarrow> int list \<Rightarrow> uint16 \<Rightarrow> uint16" where
  "scanSubnets net [] subnetInt = subnetInt"
| "scanSubnets net (k # ks) subnetInt =
     scanSubnets net ks (if len (net k) < 253 then word_of_int k else subnetInt)"

text \<open>
  The probe of the process-wide set, on the two bytes \<^verbatim>\<open>subnetBytes\<close>: \<open>None\<close> is the
  return with "Out of subnets", \<open>Some\<close> the bytes and the index at the \<^verbatim>\<open>break\<close>.
\<close>

function probeSubnets :: "(int \<rightharpoonup> bool) \<Rightarrow> byte \<Rightarrow> byte \<Rightarrow> (byte \<times> byte \<times> uint16) option" where
  "probeSubnets claimed b0 b1 =
     (if \<not> lookupBool claimed (uint (Uint16 b0 b1)) then Some (b0, b1, Uint16 b0 b1)
      else if b1 = 255 then (if b0 = 31 then None else probeSubnets claimed (b0 + 1) 0)
      else probeSubnets claimed b0 (b1 + 1))"
  by pat_completeness auto
termination
proof (relation "measures [\<lambda>(c, b0, b1). unat (31 - b0), \<lambda>(c, b0, b1). unat (255 - b1)]")
  have dec: "unat (x - (y + 1)) < unat (x - y)" if "x \<noteq> y" for x y :: byte
  proof -
    from that have nz: "x - y \<noteq> 0" by simp
    then have "unat (x - y - 1) = unat (x - y) - 1" by (rule unat_minus_one)
    moreover have "unat (x - y) \<noteq> 0" using nz by (simp add: unat_eq_zero)
    moreover have "x - (y + 1) = x - y - 1" by simp
    ultimately show ?thesis by (simp only:)
  qed
  show "wf (measures [\<lambda>(c, b0, b1). unat (31 - b0),
                      \<lambda>(c::int \<rightharpoonup> bool, b0::byte, b1::byte). unat (255 - b1)])"
    by simp
  show "((claimed, b0 + 1, 0), claimed, b0, b1)
       \<in> measures [\<lambda>(c, b0, b1). unat (31 - b0), \<lambda>(c, b0, b1). unat (255 - b1)]"
    if "b0 \<noteq> 31" for claimed :: "int \<rightharpoonup> bool" and b0 b1 :: byte
    using dec [of 31 b0] that by simp
  show "((claimed, b0, b1 + 1), claimed, b0, b1)
       \<in> measures [\<lambda>(c, b0, b1). unat (31 - b0), \<lambda>(c, b0, b1). unat (255 - b1)]"
    if "b1 \<noteq> 255" for claimed :: "int \<rightharpoonup> bool" and b0 b1 :: byte
    using dec [of 255 b1] that by simp
qed

text \<open>
  The probe of the host numbers of one subnet, from \<^verbatim>\<open>rest := 2\<close>: \<open>None\<close> is the return
  with "rand out of host numbers", \<open>Some\<close> the host map after the claim and \<^verbatim>\<open>rest\<close>.
  The counter is the Go \<^verbatim>\<open>int\<close>; the key it reads is its value.
\<close>

function probeHosts :: "(int \<rightharpoonup> bool) \<Rightarrow> goint \<Rightarrow> ((int \<rightharpoonup> bool) \<times> goint) option" where
  "probeHosts hosts rest =
     (if lookupBool hosts (sint rest) = False then Some (hosts(sint rest \<mapsto> True), rest)
      else if rest = 255 then None
      else probeHosts hosts (rest + 1))"
  by pat_completeness auto
termination
proof (relation "measure (\<lambda>(h, rest). unat (255 - rest))")
  show "((hosts, rest + 1), hosts, rest) \<in> measure (\<lambda>(h, rest). unat (255 - rest))"
    if "rest \<noteq> 255" for hosts :: "int \<rightharpoonup> bool" and rest :: goint
  proof -
    from that have nz: "255 - rest \<noteq> 0" by simp
    then have "unat (255 - rest - 1) = unat (255 - rest) - 1" by (rule unat_minus_one)
    moreover have "unat (255 - rest) \<noteq> 0" using nz by (simp add: unat_eq_zero)
    moreover have "255 - (rest + 1) = 255 - rest - 1" by simp
    ultimately have "unat (255 - (rest + 1)) < unat (255 - rest)" by (simp only:)
    then show ?thesis by simp
  qed
qed simp

declare probeSubnets.simps [simp del]

declare probeHosts.simps [simp del]

text \<open>
  The second half of \<^verbatim>\<open>AllocateTenantIP\<close>, from \<^verbatim>\<open>hosts := network[int(subnetInt)]\<close>: the
  write to the host map of a subnet the table does not hold is a write to a nil map.
\<close>

definition claimHost ::
  "Datastore \<Rightarrow> string \<Rightarrow> tenant \<Rightarrow> byte \<Rightarrow> byte \<Rightarrow> uint16 \<Rightarrow> (Datastore \<times> IP \<times> error option) outcome" where
  "claimHost ds tenantID t b0 b1 subnetInt =
     (case network t (uint subnetInt) of
        None \<Rightarrow> Panic NilMapAssignment
      | Some hosts \<Rightarrow>
          (case probeHosts hosts 2 of
             None \<Rightarrow> Return (ds, IPnil, Some RanOutOfHostNumbers)
           | Some (hosts', rest) \<Rightarrow>
               Return
                 (ds\<lparr>tenants := AList.update tenantID
                        (t\<lparr>network := (network t)(uint subnetInt \<mapsto> hosts')\<rparr>) (tenants ds)\<rparr>,
                  IP4 172 b0 b1 (ucast rest), None)))"

definition AllocateTenantIP :: "Datastore \<Rightarrow> string \<Rightarrow> (Datastore \<times> IP \<times> error option) outcome" where
  "AllocateTenantIP ds tenantID =
     (case map_of (tenants ds) tenantID of
        None \<Rightarrow> Panic NilPointerDereference
      | Some t \<Rightarrow>
          let sorted = sort (subnets t);
              t1 = t\<lparr>subnets := sorted\<rparr>;
              ds1 = ds\<lparr>tenants := AList.update tenantID t1 (tenants ds)\<rparr>;
              subnetInt = scanSubnets (network t) sorted 0
          in if subnetInt = 0
             then (case probeSubnets (allSubnets ds) 16 0 of
                     None \<Rightarrow> Return (ds1, IPnil, Some OutOfSubnets)
                   | Some (b0, b1, i) \<Rightarrow>
                       let t2 = t1\<lparr>network := (network t)(uint i \<mapsto> Map.empty),
                                   subnets := sorted @ [uint i]\<rparr>;
                           ds2 = ds1\<lparr>allSubnets := (allSubnets ds)(uint i \<mapsto> True),
                                     tenants := AList.update tenantID t2 (tenants ds1)\<rparr>
                       in claimHost ds2 tenantID t2 b0 b1 i)
             else (case PutUint16 subnetInt of
                     (b0, b1) \<Rightarrow> claimHost ds1 tenantID t1 b0 b1 subnetInt))"

section \<open>Instances\<close>

text \<open>
  The loop \<^verbatim>\<open>for i := range tenant.Resources { if c { ...; break } }\<close> changes the first
  resource that satisfies the condition and no other.
\<close>

fun updFirst :: "('a \<Rightarrow> bool) \<Rightarrow> ('a \<Rightarrow> 'a) \<Rightarrow> 'a list \<Rightarrow> 'a list" where
  "updFirst c f [] = []"
| "updFirst c f (r # rs) = (if c r then f r # rs else r # updFirst c f rs)"

definition addUsage :: "(string \<times> goint) list \<Rightarrow> Resource list \<Rightarrow> Resource list" where
  "addUsage usage rs =
     fold (\<lambda>(name, val). updFirst (\<lambda>r. Rname r = name) (\<lambda>r. r\<lparr>Usage := Usage r + val\<rparr>)) usage rs"

definition subUsage :: "(string \<times> goint) list \<Rightarrow> Resource list \<Rightarrow> Resource list" where
  "subUsage usage rs =
     fold (\<lambda>(name, val). updFirst (\<lambda>r. Rname r = name) (\<lambda>r. r\<lparr>Usage := Usage r - val\<rparr>)) usage rs"

definition incInstances :: "Resource list \<Rightarrow> Resource list" where
  "incInstances rs = updFirst (\<lambda>r. Rtype r = 1) (\<lambda>r. r\<lparr>Usage := Usage r + 1\<rparr>) rs"

definition decInstances :: "Resource list \<Rightarrow> Resource list" where
  "decInstances rs = updFirst (\<lambda>r. Rtype r = 1) (\<lambda>r. r\<lparr>Usage := Usage r - 1\<rparr>) rs"

text \<open>
  \<^verbatim>\<open>AddInstance\<close>; \<open>now\<close> is the clock reading for the last-known-stats record. The maps
  hold pointers to one instance object; no operation below writes to it, so the maps hold
  the instance itself.
\<close>

definition AddInstance :: "Datastore \<Rightarrow> Instance \<Rightarrow> time \<Rightarrow> Datastore \<times> error option" where
  "AddInstance ds instance now =
     (let instanceStat = \<lparr>Stats_ID = Instance_ID instance,
                           Stats_TenantID = Instance_TenantID instance,
                           Stats_NodeID = Instance_NodeID instance,
                           Stats_Timestamp = now,
                           Status = Instance_State instance,
                           VCPUUsage = 0, MemUsage = 0, DiskUsage = 0\<rparr>;
          ds1 = ds\<lparr>instances := (instances ds)(Instance_ID instance \<mapsto> instance),
                    instanceLastStat := (instanceLastStat ds)(Instance_ID instance \<mapsto> instanceStat)\<rparr>
      in case map_of (tenants ds1) (Instance_TenantID instance) of
           None \<Rightarrow> (ds1, None)
         | Some t \<Rightarrow>
             (ds1\<lparr>tenants := AList.update (Instance_TenantID instance)
                     (t\<lparr>Resources := incInstances (addUsage (Instance_Usage instance) (Resources t)),
                        tenant_instances := (tenant_instances t)(Instance_ID instance \<mapsto> instance)\<rparr>)
                     (tenants ds1)\<rparr>,
              None))"

definition GetInstance :: "Datastore \<Rightarrow> string \<Rightarrow> error + Instance" where
  "GetInstance ds ident = (case instances ds ident of None \<Rightarrow> Inl InstanceNotFound | Some v \<Rightarrow> Inr v)"

text \<open>
  \<^verbatim>\<open>deleteInstance\<close>: the instance pointer read from the map is nil when the instance is
  missing, the tenant pointer is nil when the tenant is missing (the code reads
  \<^verbatim>\<open>tenant.instances\<close> before it tests \<^verbatim>\<open>tenant != nil\<close>), and so is the node pointer.
\<close>

definition deleteInstance ::
  "(string \<Rightarrow> IP) \<Rightarrow> Datastore \<Rightarrow> string \<Rightarrow> (Datastore \<times> error option) outcome" where
  "deleteInstance parseIP ds instanceID =
     (let ds1 = ds\<lparr>instanceLastStat := (instanceLastStat ds)(instanceID := None)\<rparr>;
          ds2 = ds1\<lparr>instances := (instances ds1)(instanceID := None)\<rparr>
      in case instances ds instanceID of
           None \<Rightarrow> Panic NilPointerDereference
         | Some i \<Rightarrow>
             (case map_of (tenants ds2) (Instance_TenantID i) of
                None \<Rightarrow> Panic NilPointerDereference
              | Some t \<Rightarrow>
                  let t1 = t\<lparr>tenant_instances := (tenant_instances t)(instanceID := None)\<rparr>;
                      t2 = t1\<lparr>Resources := decInstances (subUsage (Instance_Usage i) (Resources t1))\<rparr>;
                      ds3 = ds2\<lparr>tenants := AList.update (Instance_TenantID i) t2 (tenants ds2)\<rparr>
                  in if Instance_NodeID i \<noteq> []
                     then (case nodes ds3 (Instance_NodeID i) of
                             None \<Rightarrow> Panic NilPointerDereference
                           | Some n \<Rightarrow>
                               ReleaseTenantIP parseIP
                                 (ds3\<lparr>nodes := (nodes ds3)(Instance_NodeID i \<mapsto>
                                         n\<lparr>node_instances := (node_instances n)(instanceID := None)\<rparr>)\<rparr>)
                                 (Instance_TenantID i) (Instance_IPAddress i))
                     else ReleaseTenantIP parseIP ds3 (Instance_TenantID i) (Instance_IPAddress i)))"

definition DeleteInstance ::
  "(string \<Rightarrow> IP) \<Rightarrow> Datastore \<Rightarrow> string \<Rightarrow> (Datastore \<times> error option) outcome" where
  "DeleteInstance parseIP ds instanceID =
     (case deleteInstance parseIP ds instanceID of
        Panic p \<Rightarrow> Panic p
      | Return (ds1, Some err) \<Rightarrow> Return (ds1, Some err)
      | Return (ds1, None) \<Rightarrow>
          Return (logEvent ds1 instanceID userInfo (''Deleted Instance '' @ instanceID), None))"

text \<open>
  \<^verbatim>\<open>payloads.StartFailureReason\<close> is a string type with eleven named values; its
  \<^verbatim>\<open>String\<close> method is outside the datastore and is the parameter \<open>reasonString\<close>.
\<close>

datatype StartFailureReason =
    FullCloud | FullComputeNode | NoComputeNodes | NoNetworkNodes
  | InvalidPayload | InvalidData | ImageFailure | NetworkFailure
  | LaunchFailure | AlreadyRunning | InstanceExists
  | OtherReason string

fun findCNCI :: "(string \<times> tenant) list \<Rightarrow> string \<Rightarrow> string option" where
  "findCNCI [] instanceID = None"
| "findCNCI ((key, t) # ts) instanceID =
     (if CNCIID t = instanceID then Some key else findCNCI ts instanceID)"

definition removeTenantCNCI :: "Datastore \<Rightarrow> string \<Rightarrow> Datastore \<times> error option" where
  "removeTenantCNCI ds tenantID =
     (case map_of (tenants ds) tenantID of
        None \<Rightarrow> (ds, Some ErrNoTenant)
      | Some t \<Rightarrow>
          let t1 = t\<lparr>CNCIID := [], CNCIIP := []\<rparr>
          in (ds\<lparr>tenants := AList.update tenantID t1 (tenants ds)\<rparr>, updateTenant_db (db ds) t1))"

text \<open>
  \<^verbatim>\<open>StartFailure\<close>. A value sent on a waiter's channel is recorded in \<open>sent\<close>.
\<close>

definition StartFailure ::
  "(string \<Rightarrow> IP) \<Rightarrow> (StartFailureReason \<Rightarrow> string) \<Rightarrow> Datastore \<Rightarrow> string \<Rightarrow> StartFailureReason
     \<Rightarrow> (Datastore \<times> error option) outcome" where
  "StartFailure parseIP reasonString ds instanceID reason =
     (case findCNCI (tenants ds) instanceID of
        Some tenantID \<Rightarrow>
          (case removeTenantCNCI ds tenantID of
             (ds1, err) \<Rightarrow>
               let ds2 = logEvent ds1 tenantID userError
                           (''CNCI Start Failure '' @ instanceID @ '': '' @ reasonString reason)
               in (case cnciAddedChans ds2 tenantID of
                     None \<Rightarrow> Return (ds2, err)
                   | Some c \<Rightarrow>
                       let ds3 = ds2\<lparr>cnciAddedChans := (cnciAddedChans ds2)(tenantID := None)\<rparr>
                       in (case c of
                             NilChan \<Rightarrow> Return (ds3, err)
                           | Chan n \<Rightarrow> Return (ds3\<lparr>sent := sent ds3 @ [(n, False)]\<rparr>, err))))
      | None \<Rightarrow>
          (case GetInstance ds instanceID of
             Inl err \<Rightarrow> Return (ds, Some err)
           | Inr i \<Rightarrow>
               let msg = ''Start Failure '' @ instanceID @ '': '' @ reasonString reason
               in if reason \<in> {FullCloud, FullComputeNode, NoComputeNodes, NoNetworkNodes,
                                InvalidPayload, InvalidData, ImageFailure, NetworkFailure}
                  then (case deleteInstance parseIP ds instanceID of
                          Panic p \<Rightarrow> Panic p
                        | Return (ds1, err) \<Rightarrow>
                            Return (logEvent ds1 (Instance_TenantID i) userError msg, None))
                  else Return (logEvent ds (Instance_TenantID i) userError msg, None)))"

section \<open>Block devices and storage attachments\<close>

definition zeroStorageAttachment :: StorageAttachment where
  "zeroStorageAttachment = \<lparr>InstanceID = [], StorageAttachment_ID = [], BlockID = []\<rparr>"

definition AddBlockDevice :: "Datastore \<Rightarrow> BlockData \<Rightarrow> (Datastore \<times> error option) outcome" where
  "AddBlockDevice ds device =
     (let ds1 = ds\<lparr>blockDevices := (blockDevices ds)(BlockData_ID device \<mapsto> device)\<rparr>
      in case map_of (tenants ds1) (BlockData_TenantID device) of
           None \<Rightarrow> Panic NilPointerDereference
         | Some t \<Rightarrow>
             Return
               (ds1\<lparr>tenants := AList.update (BlockData_TenantID device)
                       (t\<lparr>devices := (devices t)(BlockData_ID device \<mapsto> device)\<rparr>) (tenants ds1)\<rparr>,
                None))"

definition GetBlockDevice :: "Datastore \<Rightarrow> string \<Rightarrow> error + BlockData" where
  "GetBlockDevice ds ident =
     (case blockDevices ds ident of None \<Rightarrow> Inl ErrNoBlockData | Some data \<Rightarrow> Inr data)"

definition UpdateBlockDevice :: "Datastore \<Rightarrow> BlockData \<Rightarrow> (Datastore \<times> error option) outcome" where
  "UpdateBlockDevice ds data =
     (case blockDevices ds (BlockData_ID data) of
        None \<Rightarrow> Return (ds, Some ErrNoBlockData)
      | Some _ \<Rightarrow> AddBlockDevice ds data)"

text \<open>
  \<^verbatim>\<open>updateStorageAttachments\<close>, first loop, over the reported volumes. \<^verbatim>\<open>uuid.Generate\<close>
  is the sequence \<open>uuid\<close>, \<open>n\<close> the number of identifiers drawn so far.
\<close>

fun addAttachments ::
  "(nat \<Rightarrow> string) \<Rightarrow> string \<Rightarrow> string list \<Rightarrow> nat \<Rightarrow> Datastore \<Rightarrow> Datastore outcome" where
  "addAttachments uuid inst [] n ds = Return ds"
| "addAttachments uuid inst (v # vs) n ds =
     (let key = \<lparr>attachment_instanceID = inst, attachment_volumeID = v\<rparr>
      in case map_of (instanceVolumes ds) key of
           Some _ \<Rightarrow> addAttachments uuid inst vs n ds
         | None \<Rightarrow>
             let a = \<lparr>InstanceID = inst, StorageAttachment_ID = uuid n, BlockID = v\<rparr>;
                 ds1 = ds\<lparr>attachments := (attachments ds)(uuid n \<mapsto> a),
                           instanceVolumes := AList.update key (uuid n) (instanceVolumes ds)\<rparr>
             in (case createStorageAttachment_db (db ds1) a of
                   Some err \<Rightarrow> addAttachments uuid inst vs (n + 1) ds1
                 | None \<Rightarrow>
                     (case GetBlockDevice ds1 v of
                        Inl err \<Rightarrow> addAttachments uuid inst vs (n + 1) ds1
                      | Inr bd \<Rightarrow>
                          (case UpdateBlockDevice ds1 (bd\<lparr>BlockData_State := InUse\<rparr>) of
                             Panic p \<Rightarrow> Panic p
                           | Return (ds2, err) \<Rightarrow> addAttachments uuid inst vs (n + 1) ds2))))"

text \<open>
  Second loop, over \<^verbatim>\<open>ds.instanceVolumes\<close>: \<open>keys\<close> are the keys of the map when the
  \<^verbatim>\<open>range\<close> starts; a key deleted before the loop reaches it is not visited. \<open>m\<close> is the
  set of reported volumes.
\<close>

fun removeAttachments :: "(string \<Rightarrow> bool) \<Rightarrow> attachment list \<Rightarrow> Datastore \<Rightarrow> Datastore outcome" where
  "removeAttachments m [] ds = Return ds"
| "removeAttachments m (k # keys) ds =
     (case map_of (instanceVolumes ds) k of
        None \<Rightarrow> removeAttachments m keys ds
      | Some ident \<Rightarrow>
          let a = (case attachments ds ident of None \<Rightarrow> zeroStorageAttachment | Some a \<Rightarrow> a)
          in if \<not> m (BlockID a)
             then (case GetBlockDevice ds (BlockID a) of
                     Inl err \<Rightarrow> removeAttachments m keys ds
                   | Inr bd \<Rightarrow>
                       (case UpdateBlockDevice ds (bd\<lparr>BlockData_State := Available\<rparr>) of
                          Panic p \<Rightarrow> Panic p
                        | Return (ds1, err) \<Rightarrow>
                            let key = \<lparr>attachment_instanceID = InstanceID a, attachment_volumeID = BlockID a\<rparr>
                            in removeAttachments m keys
                                 (ds1\<lparr>attachments := (attachments ds1)(ident := None),
                                      instanceVolumes := AList.delete key (instanceVolumes ds1)\<rparr>)))
             else removeAttachments m keys ds)"

definition updateStorageAttachments ::
  "(nat \<Rightarrow> string) \<Rightarrow> Datastore \<Rightarrow> string \<Rightarrow> string list \<Rightarrow> Datastore outcome" where
  "updateStorageAttachments uuid ds inst volumes =
     (let m = (\<lambda>v. v \<in> set volumes)
      in case addAttachments uuid inst volumes 0 ds of
           Panic p \<Rightarrow> Panic p
         | Return ds1 \<Rightarrow> removeAttachments m (map fst (instanceVolumes ds1)) ds1)"

section \<open>Vocabulary of the properties\<close>

text \<open>A persistent store whose calls all succeed, and the datastore with every map empty.\<close>

definition okStore :: persistentStore where
  "okStore = \<lparr>releaseTenantIP_db = (\<lambda>t s h. None), removeInstance_db = (\<lambda>i. None),
              updateTenant_db = (\<lambda>t. None), createStorageAttachment_db = (\<lambda>a. None)\<rparr>"

definition emptyDatastore :: Datastore where
  "emptyDatastore = \<lparr>db = okStore, eventLog = [], cnciAddedChans = Map.empty, sent = [],
     instanceLastStat = Map.empty, tenants = [], allSubnets = Map.empty, nodes = Map.empty,
     instances = Map.empty, tenantUsage = Map.empty, blockDevices = Map.empty,
     attachments = Map.empty, instanceVolumes = []\<rparr>"

text \<open>A usage delta with some non-zero component, and a tenant's usage samples, oldest first.\<close>

definition nonzero :: "CiaoUsage \<Rightarrow> bool" where
  "nonzero d = (VCPU d \<noteq> 0 \<or> Memory d \<noteq> 0 \<or> Disk d \<noteq> 0)"

definition history :: "Datastore \<Rightarrow> string \<Rightarrow> CiaoUsage list" where
  "history ds tenantID = (case tenantUsage ds tenantID of None \<Rightarrow> [] | Some us \<Rightarrow> us)"

text \<open>Example values: a usage delta, usage samples, and a tenant with three samples.\<close>

definition delta1 :: CiaoUsage where
  "delta1 = \<lparr>VCPU = 2, Memory = 512, Disk = 10, Timestamp = 0\<rparr>"

definition sample :: "time \<Rightarrow> CiaoUsage" where
  "sample t = \<lparr>VCPU = 1, Memory = 1, Disk = 1, Timestamp = t\<rparr>"

definition usageStore :: Datastore where
  "usageStore = emptyDatastore\<lparr>tenantUsage := [''t'' \<mapsto> [sample 100, sample 200, sample 300]]\<rparr>"

text \<open>
  Example values: a tenant that has allocated nothing, a datastore that holds it, an
  instance of that tenant, an instance of a tenant the datastore does not hold, and a
  parser that knows two addresses.
\<close>

definition freshTenant :: tenant where
  "freshTenant = \<lparr>Tenant_ID = ''t'', CNCIID = ''cnci'', CNCIMAC = ''02:00:00:00:00:01'', CNCIIP = [],
     Resources = [\<lparr>Rname = ''instances'', Rtype = 1, Limit = 10, Usage = 0\<rparr>,
                  \<lparr>Rname = ''vcpus'', Rtype = 2, Limit = 8, Usage = 0\<rparr>],
     network = Map.empty, subnets = [], tenant_instances = Map.empty, devices = Map.empty\<rparr>"

definition tenantStore :: Datastore where
  "tenantStore = emptyDatastore\<lparr>tenants := [(''t'', freshTenant)]\<rparr>"

definition instance1 :: Instance where
  "instance1 = \<lparr>Instance_ID = ''i1'', Instance_TenantID = ''t'', Instance_NodeID = [],
     Instance_State = ''pending'', Instance_IPAddress = ''172.16.0.2'',
     Instance_Usage = [(''vcpus'', 2)], SSHIP = [], SSHPort = 0\<rparr>"

definition strayInstance :: Instance where
  "strayInstance = instance1\<lparr>Instance_TenantID := ''ghost''\<rparr>"

definition parseExample :: "string \<Rightarrow> IP" where
  "parseExample s =
     (if s = ''172.16.0.2'' then IP4 172 16 0 2
      else if s = ''172.16.0.3'' then IP4 172 16 0 3
      else IPnil)"

text \<open>
  Vocabulary of the allocator properties. \<open>hostsUpTo m\<close> is the host map of a subnet after
  \<open>m\<close> claims and no release (hosts 2 to \<open>m + 1\<close>). After the tenant has filled \<open>q\<close>
  subnets and claimed \<open>r\<close> hosts in the next one, starting from a datastore \<open>ds\<close> in which
  it is the tenant \<open>t\<close>, \<open>networkAfter\<close>, \<open>subnetsAfter\<close> and \<open>claimedAfter\<close> are its
  table, its subnet list and the process-wide set, and \<open>storeAfter\<close> is the datastore.
\<close>

definition hostsUpTo :: "nat \<Rightarrow> (int \<rightharpoonup> bool)" where
  "hostsUpTo m = (\<lambda>h. if 2 \<le> h \<and> h < 2 + int m then Some True else None)"

definition subnetCount :: "nat \<Rightarrow> nat \<Rightarrow> nat" where
  "subnetCount q r = q + (if r = 0 then 0 else 1)"

definition networkAfter :: "tenant \<Rightarrow> nat \<Rightarrow> nat \<Rightarrow> (int \<rightharpoonup> (int \<rightharpoonup> bool))" where
  "networkAfter t q r =
     (\<lambda>k. if 4096 \<le> k \<and> k < 4096 + int q then Some (hostsUpTo 253)
          else if k = 4096 + int q \<and> 0 < r then Some (hostsUpTo r)
          else network t k)"

definition subnetsAfter :: "nat \<Rightarrow> nat \<Rightarrow> int list" where
  "subnetsAfter q r = map (\<lambda>j. 4096 + int j) [0 ..< subnetCount q r]"

definition claimedAfter :: "Datastore \<Rightarrow> nat \<Rightarrow> nat \<Rightarrow> (int \<rightharpoonup> bool)" where
  "claimedAfter ds q r =
     (\<lambda>k. if 4096 \<le> k \<and> k < 4096 + int (subnetCount q r) then Some True else allSubnets ds k)"

definition tenantAfter :: "tenant \<Rightarrow> nat \<Rightarrow> nat \<Rightarrow> tenant" where
  "tenantAfter t q r = t\<lparr>subnets := subnetsAfter q r, network := networkAfter t q r\<rparr>"

definition storeAfter :: "Datastore \<Rightarrow> string \<Rightarrow> tenant \<Rightarrow> nat \<Rightarrow> nat \<Rightarrow> Datastore" where
  "storeAfter ds tid t q r =
     ds\<lparr>allSubnets := claimedAfter ds q r,
        tenants := AList.update tid (tenantAfter t q r) (tenants ds)\<rparr>"

text \<open>
  The address of host \<open>h\<close> in the subnet of index \<open>s\<close>; a tenant with no subnet in a
  datastore where no index from 16.0 to 31.255 is claimed; \<open>n\<close> calls of
  \<^verbatim>\<open>AllocateTenantIP\<close> in a row with nothing in between, and what each returned; what the
  call number \<open>k\<close> (from 0) of such a run returns, and the datastore after \<open>n\<close> of them.
\<close>

definition subnetAddress :: "int \<Rightarrow> int \<Rightarrow> IP" where
  "subnetAddress s h = IP4 172 (word_of_int (s div 256)) (word_of_int (s mod 256)) (word_of_int h)"

definition fresh :: "Datastore \<Rightarrow> string \<Rightarrow> tenant \<Rightarrow> bool" where
  "fresh ds tid t =
     (map_of (tenants ds) tid = Some t \<and> subnets t = []
      \<and> (\<forall>k. 4096 \<le> k \<and> k \<le> 8191 \<longrightarrow> \<not> lookupBool (allSubnets ds) k))"

fun allocations :: "nat \<Rightarrow> Datastore \<Rightarrow> string \<Rightarrow> (Datastore \<times> (IP \<times> error option) list) outcome" where
  "allocations 0 ds tid = Return (ds, [])"
| "allocations (Suc n) ds tid =
     (case allocations n ds tid of
        Panic p \<Rightarrow> Panic p
      | Return (ds1, rs) \<Rightarrow>
          (case AllocateTenantIP ds1 tid of
             Panic p \<Rightarrow> Panic p
           | Return (ds2, ip, err) \<Rightarrow> Return (ds2, rs @ [(ip, err)])))"

definition nthAddress :: "nat \<Rightarrow> IP" where
  "nthAddress k = subnetAddress (4096 + int (k div 253)) (2 + int (k mod 253))"

definition nthResult :: "nat \<Rightarrow> IP \<times> error option" where
  "nthResult k = (if k < 253 * 4096 then (nthAddress k, None) else (IPnil, Some OutOfSubnets))"

definition storeAt :: "Datastore \<Rightarrow> string \<Rightarrow> tenant \<Rightarrow> nat \<Rightarrow> Datastore" where
  "storeAt ds tid t n = storeAfter ds tid t (min n (253 * 4096) div 253) (min n (253 * 4096) mod 253)"

text \<open>
  The tenant after the release of one host; the number of hosts of a subnet that read
  claimed, and the number of keys of its host map.
\<close>

definition markReleased :: "tenant \<Rightarrow> int \<Rightarrow> int \<Rightarrow> tenant" where
  "markReleased t subnet host =
     t\<lparr>network := (network t)(subnet \<mapsto> (case network t subnet of None \<Rightarrow> Map.empty | Some h \<Rightarrow> h)(host \<mapsto> False))\<rparr>"

definition claimedHosts :: "Datastore \<Rightarrow> string \<Rightarrow> int \<Rightarrow> nat" where
  "claimedHosts ds tid k =
     (case map_of (tenants ds) tid of
        None \<Rightarrow> 0
      | Some t \<Rightarrow> (case network t k of None \<Rightarrow> 0 | Some hosts \<Rightarrow> card {h. hosts h = Some True}))"

definition hostEntries :: "Datastore \<Rightarrow> string \<Rightarrow> int \<Rightarrow> nat" where
  "hostEntries ds tid k = (case map_of (tenants ds) tid of None \<Rightarrow> 0 | Some t \<Rightarrow> len (network t k))"

text \<open>
  Example values: the example tenant after its first allocation (172.16.0.2), and after
  the release of that address.
\<close>

definition allocatedTenant :: tenant where
  "allocatedTenant = freshTenant\<lparr>subnets := [4096], network := [4096 \<mapsto> [2 \<mapsto> True]]\<rparr>"

definition allocatedStore :: Datastore where
  "allocatedStore = tenantStore\<lparr>allSubnets := [4096 \<mapsto> True], tenants := [(''t'', allocatedTenant)]\<rparr>"

definition releasedStore :: Datastore where
  "releasedStore = tenantStore\<lparr>allSubnets := [4096 \<mapsto> True],
     tenants := [(''t'', freshTenant\<lparr>subnets := [4096], network := [4096 \<mapsto> [2 \<mapsto> False]]\<rparr>)]\<rparr>"

text \<open>
  Vocabulary of the instance properties: the instance's node is known to the datastore (or
  the instance has none); the release of its address does not write to the host map of a
  subnet the tenant's table does not hold; a tenant's usage counters; membership of an
  instance in a tenant's and in a node's instance map.
\<close>

definition nodeKnown :: "Datastore \<Rightarrow> Instance \<Rightarrow> bool" where
  "nodeKnown ds i = (Instance_NodeID i = [] \<or> nodes ds (Instance_NodeID i) \<noteq> None)"

definition releasable :: "(string \<Rightarrow> IP) \<Rightarrow> tenant \<Rightarrow> string \<Rightarrow> bool" where
  "releasable parseIP t ip =
     (case parseIP ip of
        IP4 a0 a1 a2 a3 \<Rightarrow> network t (uint (Uint16 a1 a2)) \<noteq> None
      | _ \<Rightarrow> True)"

definition tenantResources :: "Datastore \<Rightarrow> string \<Rightarrow> Resource list" where
  "tenantResources ds tid = (case map_of (tenants ds) tid of None \<Rightarrow> [] | Some t \<Rightarrow> Resources t)"

definition inTenantMap :: "Datastore \<Rightarrow> string \<Rightarrow> string \<Rightarrow> bool" where
  "inTenantMap ds tid iid =
     (case map_of (tenants ds) tid of None \<Rightarrow> False | Some t \<Rightarrow> tenant_instances t iid \<noteq> None)"

definition inNodeMap :: "Datastore \<Rightarrow> string \<Rightarrow> string \<Rightarrow> bool" where
  "inNodeMap ds nid iid =
     (case nodes ds nid of None \<Rightarrow> False | Some n \<Rightarrow> node_instances n iid \<noteq> None)"


text \<open>
  Example values: the instance of the example tenant placed on a node, a datastore that
  knows this node, and a rendering of the start-failure reasons.
\<close>

definition placedInstance :: Instance where
  "placedInstance = instance1\<lparr>Instance_NodeID := ''n1''\<rparr>"

definition nodeStore :: Datastore where
  "nodeStore = allocatedStore\<lparr>nodes := [''n1'' \<mapsto>
     \<lparr>Node_ID = ''n1'', Hostname = ''host1'', node_instances = Map.empty\<rparr>]\<rparr>"


fun reasonName :: "StartFailureReason \<Rightarrow> string" where
  "reasonName FullCloud = ''full_cloud''"
| "reasonName FullComputeNode = ''full_cn''"
| "reasonName NoComputeNodes = ''no_cn''"
| "reasonName NoNetworkNodes = ''no_net_cn''"
| "reasonName InvalidPayload = ''invalid_payload''"
| "reasonName InvalidData = ''invalid_data''"
| "reasonName ImageFailure = ''image_failure''"
| "reasonName NetworkFailure = ''network_failure''"
| "reasonName LaunchFailure = ''launch_failure''"
| "reasonName AlreadyRunning = ''already_running''"
| "reasonName InstanceExists = ''instance_exists''"
| "reasonName (OtherReason s) = s"

text \<open>
  Example values: two volumes of the example tenant, both available, a datastore that
  holds them, and a source of attachment identifiers.
\<close>

definition volume :: "string \<Rightarrow> BlockState \<Rightarrow> BlockData" where
  "volume ident st = \<lparr>BlockData_ID = ident, BlockData_TenantID = ''t'', BlockData_State = st, Size = 10\<rparr>"

definition volumeStore :: Datastore where
  "volumeStore = emptyDatastore
     \<lparr>tenants := [(''t'', freshTenant\<lparr>devices := [''vol1'' \<mapsto> volume ''vol1'' Available,
                                                   ''vol2'' \<mapsto> volume ''vol2'' Available]\<rparr>)],
      blockDevices := [''vol1'' \<mapsto> volume ''vol1'' Available, ''vol2'' \<mapsto> volume ''vol2'' Available]\<rparr>"

definition uuidFrom :: "nat \<Rightarrow> nat \<Rightarrow> string" where
  "uuidFrom k n = ''uuid-'' @ replicate (k + n) (CHR ''i'')"

definition link :: "string \<Rightarrow> string \<Rightarrow> attachment" where
  "link inst vol = \<lparr>attachment_instanceID = inst, attachment_volumeID = vol\<rparr>"

definition volumeState :: "Datastore \<Rightarrow> string \<Rightarrow> BlockState option" where
  "volumeState ds ident = map_option BlockData_State (blockDevices ds ident)"

text \<open>One turn of the usage loops of \<^verbatim>\<open>AddInstance\<close> and \<^verbatim>\<open>deleteInstance\<close>.\<close>

definition add1 :: "string \<Rightarrow> goint \<Rightarrow> Resource list \<Rightarrow> Resource list" where
  "add1 name val = updFirst (\<lambda>r. Rname r = name) (\<lambda>r. r\<lparr>Usage := Usage r + val\<rparr>)"

definition sub1 :: "string \<Rightarrow> goint \<Rightarrow> Resource list \<Rightarrow> Resource list" where
  "sub1 name val = updFirst (\<lambda>r. Rname r = name) (\<lambda>r. r\<lparr>Usage := Usage r - val\<rparr>)"

section \<open>Properties\<close>

subsection \<open>Usage history\<close>

lemma first_update:
  "history ds tid = [] \<Longrightarrow> nonzero d1 \<Longrightarrow>
   tenantUsage (updateTenantUsage ds d1 tid s1 n1) tid
     = Some [\<lparr>VCPU = VCPU d1, Memory = Memory d1, Disk = Disk d1, Timestamp = n1\<rparr>]"
  by (auto simp: updateTenantUsage_def updateTenantUsageNeeded_def nonzero_def history_def zeroUsage_def
      split: option.splits)

lemma next_update:
  "tenantUsage ds tid = Some [u] \<Longrightarrow> nonzero d \<Longrightarrow>
   tenantUsage (updateTenantUsage ds d tid s n) tid
     = Some (if s - Timestamp u < 5 * Minute
             then [\<lparr>VCPU = VCPU u + VCPU d, Memory = Memory u + Memory d, Disk = Disk u + Disk d,
                    Timestamp = Timestamp u\<rparr>]
             else [u, \<lparr>VCPU = VCPU u + VCPU d, Memory = Memory u + Memory d, Disk = Disk u + Disk d,
                    Timestamp = n\<rparr>])"
  by (auto simp: updateTenantUsage_def updateTenantUsageNeeded_def nonzero_def tenantUsagePeriodMinutes_def Let_def)

text \<open>
  Claim C6. For a tenant with no usage history, two updates with non-zero deltas: when the
  second arrives less than five minutes after the first entry's timestamp, the history is
  one entry, with the sum of both deltas and the first entry's timestamp; when it arrives
  more than five minutes after, the history is two entries; and an update whose vcpu,
  memory and disk deltas are all zero leaves the datastore as it is.
\<close>

theorem usage_coalescing:
  "history ds tid = [] \<Longrightarrow> nonzero d1 \<Longrightarrow> nonzero d2 \<Longrightarrow>
   (s2 - n1 < 5 * Minute \<longrightarrow>
      history (updateTenantUsage (updateTenantUsage ds d1 tid s1 n1) d2 tid s2 n2) tid
        = [\<lparr>VCPU = VCPU d1 + VCPU d2, Memory = Memory d1 + Memory d2, Disk = Disk d1 + Disk d2,
            Timestamp = n1\<rparr>])
   \<and> (5 * Minute < s2 - n1 \<longrightarrow>
      history (updateTenantUsage (updateTenantUsage ds d1 tid s1 n1) d2 tid s2 n2) tid
        = [\<lparr>VCPU = VCPU d1, Memory = Memory d1, Disk = Disk d1, Timestamp = n1\<rparr>,
           \<lparr>VCPU = VCPU d1 + VCPU d2, Memory = Memory d1 + Memory d2, Disk = Disk d1 + Disk d2,
            Timestamp = n2\<rparr>])
   \<and> (\<not> nonzero d0 \<longrightarrow> updateTenantUsage ds' d0 tid' s0 n0 = ds')"
proof (intro conjI impI)
  assume h: "history ds tid = []" and d1: "nonzero d1" and d2: "nonzero d2"
  let ?u = "\<lparr>VCPU = VCPU d1, Memory = Memory d1, Disk = Disk d1, Timestamp = n1\<rparr>"
  have one: "tenantUsage (updateTenantUsage ds d1 tid s1 n1) tid = Some [?u]"
    using h d1 by (rule first_update)
  show "history (updateTenantUsage (updateTenantUsage ds d1 tid s1 n1) d2 tid s2 n2) tid
        = [\<lparr>VCPU = VCPU d1 + VCPU d2, Memory = Memory d1 + Memory d2, Disk = Disk d1 + Disk d2,
            Timestamp = n1\<rparr>]" if "s2 - n1 < 5 * Minute"
    using next_update [OF one d2, of s2 n2] that by (simp add: history_def)
  show "history (updateTenantUsage (updateTenantUsage ds d1 tid s1 n1) d2 tid s2 n2) tid
        = [?u, \<lparr>VCPU = VCPU d1 + VCPU d2, Memory = Memory d1 + Memory d2, Disk = Disk d1 + Disk d2,
            Timestamp = n2\<rparr>]" if "5 * Minute < s2 - n1"
    using next_update [OF one d2, of s2 n2] that by (simp add: history_def)
next
  assume "\<not> nonzero d0"
  then show "updateTenantUsage ds' d0 tid' s0 n0 = ds'"
    by (simp add: updateTenantUsage_def updateTenantUsageNeeded_def nonzero_def)
qed

theorem usage_coalescing_witness:
  "history (updateTenantUsage (updateTenantUsage emptyDatastore delta1 ''t'' 1000 1000)
              delta1 ''t'' (1000 + Minute) (1000 + Minute)) ''t''
     = [\<lparr>VCPU = 4, Memory = 1024, Disk = 20, Timestamp = 1000\<rparr>]
   \<and> history (updateTenantUsage (updateTenantUsage emptyDatastore delta1 ''t'' 1000 1000)
              delta1 ''t'' (1000 + 6 * Minute) (1000 + 6 * Minute)) ''t''
     = [\<lparr>VCPU = 2, Memory = 512, Disk = 10, Timestamp = 1000\<rparr>,
        \<lparr>VCPU = 4, Memory = 1024, Disk = 20, Timestamp = 1000 + 6 * Minute\<rparr>]
   \<and> updateTenantUsage usageStore zeroUsage ''t'' 1000 1000 = usageStore"
proof -
  have h: "history emptyDatastore ''t'' = []" by (simp add: history_def emptyDatastore_def)
  have d: "nonzero delta1" by (simp add: nonzero_def delta1_def)
  have z: "\<not> nonzero zeroUsage" by (simp add: nonzero_def zeroUsage_def)
  have m: "(1000 + Minute) - 1000 < 5 * Minute" "5 * Minute < (1000 + 6 * Minute) - 1000"
    by (simp_all add: Minute_def)
  show ?thesis
    using usage_coalescing [OF h d d, of "1000 + Minute" 1000 1000 "1000 + Minute" zeroUsage usageStore "''t''" 1000 1000]
      usage_coalescing [OF h d d, of "1000 + 6 * Minute" 1000 1000 "1000 + 6 * Minute" zeroUsage usageStore "''t''" 1000 1000]
      m z by (simp add: delta1_def)
qed

lemma countBefore_eq:
  "countBefore s e us (f, l) =
     (f + length (filter (\<lambda>u. s > Timestamp u) us), l + length (filter (\<lambda>u. e > Timestamp u) us))"
  by (induction us arbitrary: f l) auto

lemma sorted_take_before:
  "sorted (map Timestamp us) \<Longrightarrow>
   take (length (filter (\<lambda>u. Timestamp u < e) us)) us = filter (\<lambda>u. Timestamp u < e) us"
proof (induction us)
  case Nil
  then show ?case by simp
next
  case (Cons u us)
  show ?case
  proof (cases "Timestamp u < e")
    case True
    with Cons show ?thesis by simp
  next
    case False
    with Cons.prems have "\<forall>v \<in> set us. \<not> Timestamp v < e" by auto
    then have "filter (\<lambda>u. Timestamp u < e) us = []" by (simp add: filter_empty_conv)
    with False show ?thesis by simp
  qed
qed

lemma sorted_drop_before:
  "sorted (map Timestamp us) \<Longrightarrow>
   drop (length (filter (\<lambda>u. Timestamp u < s) us)) us = filter (\<lambda>u. s \<le> Timestamp u) us"
proof (induction us)
  case Nil
  then show ?case by simp
next
  case (Cons u us)
  show ?case
  proof (cases "Timestamp u < s")
    case True
    with Cons show ?thesis by simp
  next
    case False
    with Cons.prems have all: "\<forall>v \<in> set us. s \<le> Timestamp v" by auto
    then have "filter (\<lambda>u. Timestamp u < s) us = []" by (auto simp: filter_empty_conv)
    moreover from all have "filter (\<lambda>u. s \<le> Timestamp u) us = us" by simp
    ultimately show ?thesis using False by simp
  qed
qed

lemma window_as_slice:
  assumes srt: "sorted (map Timestamp us)" and se: "s \<le> e"
  shows "subslice us (length (filter (\<lambda>u. Timestamp u < s) us)) (length (filter (\<lambda>u. Timestamp u < e) us))
         = Return (filter (\<lambda>u. s \<le> Timestamp u \<and> Timestamp u < e) us)"
proof -
  let ?f = "length (filter (\<lambda>u. Timestamp u < s) us)"
  let ?l = "length (filter (\<lambda>u. Timestamp u < e) us)"
  let ?vs = "filter (\<lambda>u. s \<le> Timestamp u) us"
  have split: "?l = ?f + length (filter (\<lambda>u. Timestamp u < e) ?vs)"
    using se by (induction us) auto
  have "sorted (map Timestamp ?vs)" using srt by (simp add: sorted_filter)
  then have "take (length (filter (\<lambda>u. Timestamp u < e) ?vs)) ?vs = filter (\<lambda>u. Timestamp u < e) ?vs"
    by (rule sorted_take_before)
  then have "take (?l - ?f) (drop ?f us) = filter (\<lambda>u. Timestamp u < e) ?vs"
    using split sorted_drop_before [OF srt, of s] by simp
  also have "\<dots> = filter (\<lambda>u. s \<le> Timestamp u \<and> Timestamp u < e) us"
    by (simp add: conj_commute)
  finally have body: "take (?l - ?f) (drop ?f us) = filter (\<lambda>u. s \<le> Timestamp u \<and> Timestamp u < e) us" .
  have "?l \<le> length us" by (rule length_filter_le)
  moreover have "?f \<le> ?l" using split by simp
  ultimately show ?thesis using body by (simp add: subslice_def)
qed

lemma window_empty:
  assumes "sorted (map Timestamp us)" "us \<noteq> []"
    and "Timestamp (us ! 0) > e \<or> s > Timestamp (us ! (length us - 1))"
  shows "filter (\<lambda>u. s \<le> Timestamp u \<and> Timestamp u < e) us = []"
proof -
  have lo: "Timestamp (us ! 0) \<le> Timestamp v" if "v \<in> set us" for v
  proof -
    from that obtain i where i: "i < length us" "us ! i = v" by (auto simp: in_set_conv_nth)
    from assms(1) i(1) have "map Timestamp us ! 0 \<le> map Timestamp us ! i"
      by (intro sorted_nth_mono) auto
    with i assms(2) show ?thesis by simp
  qed
  have hi: "Timestamp v \<le> Timestamp (us ! (length us - 1))" if "v \<in> set us" for v
  proof -
    from that obtain i where i: "i < length us" "us ! i = v" by (auto simp: in_set_conv_nth)
    from assms(1) i(1) have "map Timestamp us ! i \<le> map Timestamp us ! (length us - 1)"
      by (intro sorted_nth_mono) auto
    with i assms(2) show ?thesis by simp
  qed
  show ?thesis using assms(3) lo hi by (fastforce simp: filter_empty_conv)
qed

text \<open>
  Claim C7, as the code has it. For a tenant with a non-empty, time-ascending usage history
  and \<open>start \<le> end\<close>, \<^verbatim>\<open>GetTenantUsage\<close> returns the samples whose timestamp \<open>t\<close>
  satisfies \<open>start \<le> t < end\<close>, in their stored order: the start bound is inclusive, the
  end bound exclusive.
\<close>

theorem tenant_usage_window:
  "history ds tid = us \<Longrightarrow> us \<noteq> [] \<Longrightarrow> sorted (map Timestamp us) \<Longrightarrow> start \<le> end \<Longrightarrow>
   GetTenantUsage ds tid start end
     = Return (filter (\<lambda>u. start \<le> Timestamp u \<and> Timestamp u < end) us, None)"
proof -
  assume h: "history ds tid = us" and ne: "us \<noteq> []"
    and srt: "sorted (map Timestamp us)" and se: "start \<le> end"
  have us: "(case tenantUsage ds tid of None \<Rightarrow> [] | Some us \<Rightarrow> us) = us"
    using h by (simp add: history_def)
  show ?thesis
  proof (cases "Timestamp (us ! 0) > end \<or> start > Timestamp (us ! (length us - 1))")
    case True
    then show ?thesis
      using window_empty [OF srt ne True] ne by (simp add: GetTenantUsage_def us)
  next
    case False
    then show ?thesis
      using window_as_slice [OF srt se] ne
      by (simp add: GetTenantUsage_def us countBefore_eq)
  qed
qed

theorem tenant_usage_window_witness:
  "GetTenantUsage usageStore ''t'' 150 300 = Return ([sample 200], None)"
  using tenant_usage_window [of usageStore "''t''" "[sample 100, sample 200, sample 300]" 150 300]
  by (simp add: history_def sample_def usageStore_def)

text \<open>
  The samples of the example tenant are at 100, 200 and 300. Between 100 and 200, both
  inclusive, lie the first two; the call returns the first only.
\<close>

theorem tenant_usage_end_bound_counterexample:
  "GetTenantUsage usageStore ''t'' 100 200 = Return ([sample 100], None)
   \<and> GetTenantUsage usageStore ''t'' 100 200 \<noteq> Return ([sample 100, sample 200], None)"
  by (simp add: GetTenantUsage_def sample_def subslice_def usageStore_def)

subsection \<open>Missing tenants\<close>

lemma claimHost_no_nil_pointer:
  "claimHost ds tid t b0 b1 i \<noteq> Panic NilPointerDereference"
  by (simp add: claimHost_def split: option.splits prod.splits)

text \<open>
  Claim C9. \<^verbatim>\<open>AllocateTenantIP\<close> dereferences a nil tenant pointer, and panics instead of
  returning an error, exactly when the tenant ID is not in the tenant map: with the tenant
  absent the call ends in that panic, with the tenant present it never does.
\<close>

theorem allocate_nil_tenant:
  "(AllocateTenantIP ds tenantID = Panic NilPointerDereference) = (map_of (tenants ds) tenantID = None)"
  by (auto simp: AllocateTenantIP_def Let_def claimHost_no_nil_pointer split: option.splits prod.splits)

theorem allocate_nil_tenant_witness:
  "AllocateTenantIP tenantStore ''ghost'' = Panic NilPointerDereference
   \<and> AllocateTenantIP tenantStore ''t'' \<noteq> Panic NilPointerDereference"
  using allocate_nil_tenant [of tenantStore "''ghost''"] allocate_nil_tenant [of tenantStore "''t''"]
  by (simp add: tenantStore_def emptyDatastore_def)

text \<open>
  Claim C10. \<^verbatim>\<open>AddInstance\<close> returns nil for every instance; for an instance whose tenant
  is not in the tenant map it still stores the instance in the global instance map and in
  the last-known-stats cache, and leaves every tenant (usage counters and instance map) as
  it was.
\<close>

theorem add_instance_returns_nil:
  "snd (AddInstance ds inst now) = None
   \<and> (map_of (tenants ds) (Instance_TenantID inst) = None \<longrightarrow>
        instances (fst (AddInstance ds inst now)) = (instances ds)(Instance_ID inst \<mapsto> inst)
      \<and> instanceLastStat (fst (AddInstance ds inst now)) (Instance_ID inst)
          = Some \<lparr>Stats_ID = Instance_ID inst, Stats_TenantID = Instance_TenantID inst,
                  Stats_NodeID = Instance_NodeID inst, Stats_Timestamp = now,
                  Status = Instance_State inst, VCPUUsage = 0, MemUsage = 0, DiskUsage = 0\<rparr>
      \<and> tenants (fst (AddInstance ds inst now)) = tenants ds)"
  by (simp add: AddInstance_def Let_def split: option.splits)

theorem add_instance_returns_nil_witness:
  "snd (AddInstance tenantStore strayInstance 1000) = None
   \<and> instances (fst (AddInstance tenantStore strayInstance 1000)) ''i1'' = Some strayInstance
   \<and> tenants (fst (AddInstance tenantStore strayInstance 1000)) = [(''t'', freshTenant)]"
  using add_instance_returns_nil [of tenantStore strayInstance 1000]
  by (simp add: tenantStore_def emptyDatastore_def strayInstance_def instance1_def)

subsection \<open>Bytes and words of the allocator\<close>

lemma uint_byte_bound: "0 \<le> uint b \<and> uint b < 256" for b :: byte
  using uint_lt2p [of b] by simp

lemma uint_Uint16: "uint (Uint16 b0 b1) = uint b0 * 256 + uint b1"
proof -
  have "Uint16 b0 b1 = word_cat b0 b1"
    by (simp add: Uint16_def word_cat_eq_push_bit_or or.commute)
  also have "\<dots> = ucast b0 * 256 + ucast b1"
    by (simp add: word_cat_eq push_bit_eq_mult)
  finally have "uint (Uint16 b0 b1) = uint (ucast b0 * 256 + ucast b1 :: uint16)" by simp
  also have "\<dots> = (uint b0 * 256 + uint b1) mod 65536"
    by (simp add: uint_word_ariths uint_up_ucast is_up mod_simps)
  also have "\<dots> = uint b0 * 256 + uint b1"
    using uint_byte_bound [of b0] uint_byte_bound [of b1] by simp
  finally show ?thesis .
qed

lemma uint_byte_succ: "uint b < 255 \<Longrightarrow> uint (b + 1) = uint b + 1" for b :: byte
  using uint_byte_bound [of b] by (simp add: uint_word_ariths)

lemma byte_eq_iff: "(b = c) = (uint b = uint c)" for b c :: byte
  by (simp add: word_uint_eq_iff)

lemma byte_of_uint: "uint b = k \<Longrightarrow> b = word_of_int k" for b :: byte
  by auto

lemma uint_PutUint16:
  "PutUint16 v = (b0, b1) \<Longrightarrow> uint b0 = uint v div 256 \<and> uint b1 = uint v mod 256"
proof -
  assume "PutUint16 v = (b0, b1)"
  then have b: "b0 = ucast (drop_bit 8 v)" "b1 = ucast v" by (simp_all add: PutUint16_def)
  have v: "0 \<le> uint v \<and> uint v < 65536" using uint_lt2p [of v] by simp
  have "uint b1 = take_bit 8 (uint v)" by (simp add: b unsigned_ucast_eq)
  then have 1: "uint b1 = uint v mod 256" by (simp add: take_bit_eq_mod)
  have "uint b0 = take_bit 8 (uint (drop_bit 8 v))" by (simp add: b unsigned_ucast_eq)
  also have "uint (drop_bit 8 v) = drop_bit 8 (take_bit 16 (uint v))"
    by (simp add: unsigned_drop_bit_eq)
  also have "\<dots> = uint v div 256" using v by (simp add: drop_bit_eq_div take_bit_eq_mod)
  finally have "uint b0 = (uint v div 256) mod 256" by (simp add: take_bit_eq_mod)
  moreover have "0 \<le> uint v div 256 \<and> uint v div 256 < 256" using v by presburger
  ultimately have 0: "uint b0 = uint v div 256" by simp
  from 0 1 show ?thesis by simp
qed

lemma uint16_of_int: "0 \<le> k \<Longrightarrow> k < 65536 \<Longrightarrow> uint (word_of_int k :: uint16) = k"
  by (simp add: uint_word_of_int)

lemma sint_goint: "0 \<le> j \<Longrightarrow> j < 9223372036854775808 \<Longrightarrow> sint (word_of_int j :: goint) = j"
  by (simp add: int_word_sint)

lemma goint_eq_255: "0 \<le> j \<Longrightarrow> j < 9223372036854775808 \<Longrightarrow> (word_of_int j = (255 :: goint)) = (j = 255)"
  using sint_goint [of j] by auto

lemma ucast_goint_byte: "ucast (word_of_int j :: goint) = (word_of_int j :: byte)"
  by (rule ucast_down_wi) (simp add: is_down)

lemma bytes_of_index:
  assumes "uint b0 * 256 + uint b1 = m"
  shows "b0 = word_of_int (m div 256)" and "b1 = word_of_int (m mod 256)"
    and "Uint16 b0 b1 = word_of_int m"
proof -
  have b: "0 \<le> uint b1 \<and> uint b1 < 256" by (rule uint_byte_bound)
  have "(uint b0 * 256 + uint b1) div 256 = uint b0" using b by simp
  then have "uint b0 = m div 256" using assms by simp
  then show "b0 = word_of_int (m div 256)" by (rule byte_of_uint)
  have "(uint b0 * 256 + uint b1) mod 256 = uint b1" using b by simp
  then have "uint b1 = m mod 256" using assms by simp
  then show "b1 = word_of_int (m mod 256)" by (rule byte_of_uint)
  have "uint (Uint16 b0 b1) = m" using assms by (simp add: uint_Uint16)
  then show "Uint16 b0 b1 = word_of_int m" by auto
qed

lemma byte_of_int_inj:
  "0 \<le> a \<Longrightarrow> a < 256 \<Longrightarrow> 0 \<le> b \<Longrightarrow> b < 256 \<Longrightarrow> (word_of_int a :: byte) = word_of_int b \<Longrightarrow> a = b"
proof -
  assume a: "0 \<le> a" "a < 256" and b: "0 \<le> b" "b < 256" and e: "(word_of_int a :: byte) = word_of_int b"
  from e have "uint (word_of_int a :: byte) = uint (word_of_int b :: byte)" by simp
  then show ?thesis using a b by (simp add: uint_word_of_int)
qed

subsection \<open>The three loops of the allocator\<close>

lemma len_hostsUpTo: "len (Some (hostsUpTo m)) = m"
proof -
  have "dom (hostsUpTo m) = {2 ..< 2 + int m}"
    by (auto simp: hostsUpTo_def dom_def)
  then show ?thesis by (simp add: len_def)
qed

lemma hostsUpTo_0: "hostsUpTo 0 = Map.empty"
  by (auto simp: hostsUpTo_def)

lemma hostsUpTo_Suc: "(hostsUpTo m)(2 + int m \<mapsto> True) = hostsUpTo (Suc m)"
  by (auto simp: hostsUpTo_def fun_eq_iff)

lemma probeHosts_from:
  "j \<le> m \<Longrightarrow> m \<le> 253 \<Longrightarrow>
   probeHosts (hostsUpTo m) (word_of_int (2 + int j))
     = Some (hostsUpTo (Suc m), word_of_int (2 + int m))"
proof (induction "m - j" arbitrary: j)
  case 0
  define w :: goint where "w = word_of_int (2 + int m)"
  have sw: "sint w = 2 + int m" using 0 by (simp only: w_def) (rule sint_goint, simp_all)
  have free: "lookupBool (hostsUpTo m) (2 + int m) = False"
    by (simp add: lookupBool_def hostsUpTo_def)
  have "probeHosts (hostsUpTo m) w = Some ((hostsUpTo m)(2 + int m \<mapsto> True), w)"
    by (subst probeHosts.simps) (simp only: sw free simp_thms if_True)
  moreover from 0 have "j = m" by simp
  ultimately show ?case by (simp only: w_def hostsUpTo_Suc)
next
  case (Suc d)
  then have lt: "j < m" and d: "d = m - Suc j" by simp_all
  define w :: goint where "w = word_of_int (2 + int j)"
  have sw: "sint w = 2 + int j" using lt Suc.prems by (simp only: w_def) (rule sint_goint, simp_all)
  have claimed: "lookupBool (hostsUpTo m) (2 + int j) = True"
    using lt by (simp add: lookupBool_def hostsUpTo_def)
  have ne: "(w = 255) = False"
    using lt Suc.prems goint_eq_255 [of "2 + int j"] by (simp only: w_def) simp
  have step: "w + 1 = word_of_int (2 + int (Suc j))" by (simp add: w_def)
  have "probeHosts (hostsUpTo m) w = probeHosts (hostsUpTo m) (w + 1)"
    by (subst probeHosts.simps) (simp only: sw claimed ne if_False simp_thms)
  also have "\<dots> = Some (hostsUpTo (Suc m), word_of_int (2 + int m))"
    using Suc.hyps(1) [OF d] lt Suc.prems by (simp only: step)
  finally show ?case by (simp only: w_def)
qed

lemma probeHosts_fresh:
  "m \<le> 253 \<Longrightarrow> probeHosts (hostsUpTo m) 2 = Some (hostsUpTo (Suc m), word_of_int (2 + int m))"
  using probeHosts_from [of 0 m] by simp

lemma probeHosts_empty: "probeHosts Map.empty 2 = Some (hostsUpTo 1, 2)"
  using probeHosts_fresh [of 0] by (simp add: hostsUpTo_0)

lemma scanSubnets_full:
  "\<forall>k \<in> set ks. \<not> len (net k) < 253 \<Longrightarrow> scanSubnets net ks w = w"
  by (induction ks arbitrary: w) auto

lemma scanSubnets_snoc:
  "scanSubnets net (ks @ [k]) w = (if len (net k) < 253 then word_of_int k else scanSubnets net ks w)"
  by (induction ks arbitrary: w) auto

lemma probeSubnets_finds:
  assumes "\<forall>k. uint b0 * 256 + uint b1 \<le> k \<and> k < m \<longrightarrow> lookupBool claimed k"
    and "\<not> lookupBool claimed m" and "uint b0 * 256 + uint b1 \<le> m" and "m \<le> 8191"
  shows "probeSubnets claimed b0 b1
           = Some (word_of_int (m div 256), word_of_int (m mod 256), word_of_int m)"
  using assms
proof (induction "nat (m - (uint b0 * 256 + uint b1))" arbitrary: b0 b1)
  case 0
  then have eq: "uint b0 * 256 + uint b1 = m" by simp
  have "probeSubnets claimed b0 b1 = Some (b0, b1, Uint16 b0 b1)"
    using 0 eq by (subst probeSubnets.simps) (simp add: uint_Uint16)
  then show ?case using bytes_of_index [OF eq] by simp
next
  case (Suc d)
  let ?i = "uint b0 * 256 + uint b1"
  from Suc have lt: "?i < m" by simp
  with Suc.prems have cl: "lookupBool claimed ?i" by simp
  have b0: "0 \<le> uint b0 \<and> uint b0 < 256" and b1: "0 \<le> uint b1 \<and> uint b1 < 256"
    by (rule uint_byte_bound)+
  show ?case
  proof (cases "b1 = 255")
    case True
    then have u1: "uint b1 = 255" by simp
    have u0: "uint b0 < 31" using lt Suc.prems(4) u1 b0 by simp
    then have ne: "b0 \<noteq> 31" by auto
    have s0: "uint (b0 + 1) = uint b0 + 1" using u0 by (simp add: uint_byte_succ)
    have next_i: "uint (b0 + 1) * 256 + uint (0 :: byte) = ?i + 1" using s0 u1 by simp
    have "probeSubnets claimed b0 b1 = probeSubnets claimed (b0 + 1) 0"
      using cl True ne by (subst probeSubnets.simps) (simp add: uint_Uint16)
    also have "\<dots> = Some (word_of_int (m div 256), word_of_int (m mod 256), word_of_int m)"
    proof (rule Suc.hyps(1))
      show "d = nat (m - (uint (b0 + 1) * 256 + uint (0 :: byte)))" using Suc.hyps(2) next_i by simp
      show "\<forall>k. uint (b0 + 1) * 256 + uint (0 :: byte) \<le> k \<and> k < m \<longrightarrow> lookupBool claimed k"
        using Suc.prems(1) next_i by simp
      show "\<not> lookupBool claimed m" by (rule Suc.prems(2))
      show "uint (b0 + 1) * 256 + uint (0 :: byte) \<le> m" using lt next_i by simp
      show "m \<le> 8191" by (rule Suc.prems(4))
    qed
    finally show ?thesis .
  next
    case False
    then have u1: "uint b1 < 255" using b1 by (auto simp: byte_eq_iff)
    have s1: "uint (b1 + 1) = uint b1 + 1" using u1 by (simp add: uint_byte_succ)
    have next_i: "uint b0 * 256 + uint (b1 + 1) = ?i + 1" using s1 by simp
    have "probeSubnets claimed b0 b1 = probeSubnets claimed b0 (b1 + 1)"
      using cl False by (subst probeSubnets.simps) (simp add: uint_Uint16)
    also have "\<dots> = Some (word_of_int (m div 256), word_of_int (m mod 256), word_of_int m)"
    proof (rule Suc.hyps(1))
      show "d = nat (m - (uint b0 * 256 + uint (b1 + 1)))" using Suc.hyps(2) next_i by simp
      show "\<forall>k. uint b0 * 256 + uint (b1 + 1) \<le> k \<and> k < m \<longrightarrow> lookupBool claimed k"
        using Suc.prems(1) next_i by simp
      show "\<not> lookupBool claimed m" by (rule Suc.prems(2))
      show "uint b0 * 256 + uint (b1 + 1) \<le> m" using lt next_i by simp
      show "m \<le> 8191" by (rule Suc.prems(4))
    qed
    finally show ?thesis .
  qed
qed

lemma probeSubnets_exhausted:
  assumes "\<forall>k. uint b0 * 256 + uint b1 \<le> k \<and> k \<le> 8191 \<longrightarrow> lookupBool claimed k"
    and "uint b0 * 256 + uint b1 \<le> 8191"
  shows "probeSubnets claimed b0 b1 = None"
  using assms
proof (induction "nat (8191 - (uint b0 * 256 + uint b1))" arbitrary: b0 b1)
  case 0
  let ?i = "uint b0 * 256 + uint b1"
  have b0: "0 \<le> uint b0 \<and> uint b0 < 256" and b1: "0 \<le> uint b1 \<and> uint b1 < 256"
    by (rule uint_byte_bound)+
  from 0 have eq: "?i = 8191" by simp
  have u0: "uint b0 = 31" using eq b0 b1 by linarith
  have u1: "uint b1 = 255" using eq u0 by linarith
  have "b0 = 31" using u0 by (simp add: byte_eq_iff)
  moreover have "b1 = 255" using u1 by (simp add: byte_eq_iff)
  moreover have "lookupBool claimed ?i" using 0 by simp
  ultimately show ?case by (subst probeSubnets.simps) (simp add: uint_Uint16)
next
  case (Suc d)
  let ?i = "uint b0 * 256 + uint b1"
  have b0: "0 \<le> uint b0 \<and> uint b0 < 256" and b1: "0 \<le> uint b1 \<and> uint b1 < 256"
    by (rule uint_byte_bound)+
  from Suc have lt: "?i < 8191" by simp
  have cl: "lookupBool claimed ?i" using Suc.prems by simp
  show ?case
  proof (cases "b1 = 255")
    case True
    then have u1: "uint b1 = 255" by simp
    have u0: "uint b0 < 31" using lt u1 b0 by simp
    then have ne: "b0 \<noteq> 31" by auto
    have s0: "uint (b0 + 1) = uint b0 + 1" using u0 by (simp add: uint_byte_succ)
    have next_i: "uint (b0 + 1) * 256 + uint (0 :: byte) = ?i + 1" using s0 u1 by simp
    have "probeSubnets claimed b0 b1 = probeSubnets claimed (b0 + 1) 0"
      using cl True ne by (subst probeSubnets.simps) (simp add: uint_Uint16)
    also have "\<dots> = None"
    proof (rule Suc.hyps(1))
      show "d = nat (8191 - (uint (b0 + 1) * 256 + uint (0 :: byte)))" using Suc.hyps(2) next_i by simp
      show "\<forall>k. uint (b0 + 1) * 256 + uint (0 :: byte) \<le> k \<and> k \<le> 8191 \<longrightarrow> lookupBool claimed k"
        using Suc.prems(1) next_i by simp
      show "uint (b0 + 1) * 256 + uint (0 :: byte) \<le> 8191" using lt next_i by simp
    qed
    finally show ?thesis .
  next
    case False
    then have u1: "uint b1 < 255" using b1 by (auto simp: byte_eq_iff)
    have s1: "uint (b1 + 1) = uint b1 + 1" using u1 by (simp add: uint_byte_succ)
    have next_i: "uint b0 * 256 + uint (b1 + 1) = ?i + 1" using s1 by simp
    have "probeSubnets claimed b0 b1 = probeSubnets claimed b0 (b1 + 1)"
      using cl False by (subst probeSubnets.simps) (simp add: uint_Uint16)
    also have "\<dots> = None"
    proof (rule Suc.hyps(1))
      show "d = nat (8191 - (uint b0 * 256 + uint (b1 + 1)))" using Suc.hyps(2) next_i by simp
      show "\<forall>k. uint b0 * 256 + uint (b1 + 1) \<le> k \<and> k \<le> 8191 \<longrightarrow> lookupBool claimed k"
        using Suc.prems(1) next_i by simp
      show "uint b0 * 256 + uint (b1 + 1) \<le> 8191" using lt next_i by simp
    qed
    finally show ?thesis .
  qed
qed

lemma probe_first_free:
  assumes "\<forall>k. 4096 \<le> k \<and> k < m \<longrightarrow> lookupBool claimed k"
    and "\<not> lookupBool claimed m" and "4096 \<le> m" and "m \<le> 8191"
  shows "probeSubnets claimed 16 0
           = Some (word_of_int (m div 256), word_of_int (m mod 256), word_of_int m)"
  using probeSubnets_finds [of 16 0 m claimed] assms by simp

lemma probe_none_free:
  assumes "\<forall>k. 4096 \<le> k \<and> k \<le> 8191 \<longrightarrow> lookupBool claimed k"
  shows "probeSubnets claimed 16 0 = None"
  using probeSubnets_exhausted [of 16 0 claimed] assms by simp

lemma claimHost_step:
  "network t s = Some hosts \<Longrightarrow> probeHosts hosts 2 = Some (hosts', rest) \<Longrightarrow> uint i = s \<Longrightarrow>
   claimHost ds tid t b0 b1 i
     = Return (ds\<lparr>tenants := AList.update tid (t\<lparr>network := (network t)(s \<mapsto> hosts')\<rparr>) (tenants ds)\<rparr>,
               IP4 172 b0 b1 (ucast rest), None)"
  by (simp add: claimHost_def)

subsection \<open>One allocation, from the datastore after any number of them\<close>

lemma storeAfter_0: "map_of (tenants ds) tid = Some t \<Longrightarrow> subnets t = [] \<Longrightarrow> storeAfter ds tid t 0 0 = ds"
proof -
  assume t: "map_of (tenants ds) tid = Some t" and s: "subnets t = []"
  have "networkAfter t 0 0 = network t" by (auto simp: networkAfter_def fun_eq_iff)
  moreover have "subnetsAfter 0 0 = []" by (simp add: subnetsAfter_def subnetCount_def)
  ultimately have "tenantAfter t 0 0 = t" using s by (simp add: tenantAfter_def)
  moreover have "claimedAfter ds 0 0 = allSubnets ds"
    by (auto simp: claimedAfter_def subnetCount_def fun_eq_iff)
  ultimately show ?thesis using t by (simp add: storeAfter_def update_triv)
qed

lemma storeAfter_carry: "storeAfter ds tid t q 253 = storeAfter ds tid t (Suc q) 0"
proof -
  have "networkAfter t q 253 = networkAfter t (Suc q) 0"
    by (auto simp: networkAfter_def fun_eq_iff)
  moreover have "subnetCount q 253 = subnetCount (Suc q) 0" by (simp add: subnetCount_def)
  ultimately show ?thesis
    by (simp add: storeAfter_def tenantAfter_def subnetsAfter_def claimedAfter_def)
qed

lemma sorted_subnetsAfter: "sort (subnetsAfter q r) = subnetsAfter q r"
proof -
  have "sorted (subnetsAfter q r)"
    by (simp add: subnetsAfter_def sorted_map sorted_wrt_iff_nth_less)
  then show ?thesis by (rule sorted_sort_id)
qed

lemma tenant_of_storeAfter:
  "map_of (tenants (storeAfter ds tid t q r)) tid = Some (tenantAfter t q r)"
  by (simp add: storeAfter_def update_conv')

lemma subnetsAfter_full: "k \<in> set (subnetsAfter q 0) \<Longrightarrow> networkAfter t q r k = Some (hostsUpTo 253)"
  by (auto simp: subnetsAfter_def subnetCount_def networkAfter_def)

lemma subnetsAfter_snoc: "0 < r \<Longrightarrow> subnetsAfter q r = subnetsAfter q 0 @ [4096 + int q]"
  by (simp add: subnetsAfter_def subnetCount_def)

lemma networkAfter_last: "0 < r \<Longrightarrow> networkAfter t q r (4096 + int q) = Some (hostsUpTo r)"
  by (simp add: networkAfter_def)

lemma scan_full_prefix: "scanSubnets (networkAfter t q r) (subnetsAfter q 0) w = w"
  by (rule scanSubnets_full) (simp add: subnetsAfter_full len_hostsUpTo)

lemma scan_after:
  "scanSubnets (networkAfter t q r) (subnetsAfter q r) 0
     = (if 0 < r \<and> r < 253 then word_of_int (4096 + int q) else 0)"
proof (cases "r = 0")
  case True
  then show ?thesis using scan_full_prefix [of t q 0 0] by simp
next
  case False
  then have r: "0 < r" by simp
  show ?thesis
    by (simp only: subnetsAfter_snoc [OF r] scanSubnets_snoc networkAfter_last [OF r]
          len_hostsUpTo scan_full_prefix) (simp add: r)
qed

lemma subnet_word: "q < 4096 \<Longrightarrow> uint (word_of_int (4096 + int q) :: uint16) = 4096 + int q"
  by (rule uint16_of_int) simp_all

lemma subnet_word_nonzero: "q < 4096 \<Longrightarrow> (word_of_int (4096 + int q) :: uint16) \<noteq> 0"
proof
  assume q: "q < 4096" and z: "(word_of_int (4096 + int q) :: uint16) = 0"
  from z have "uint (word_of_int (4096 + int q) :: uint16) = 0" by simp
  with subnet_word [OF q] show False by simp
qed

lemma PutUint16_subnet:
  "q < 4096 \<Longrightarrow>
   PutUint16 (word_of_int (4096 + int q))
     = (word_of_int ((4096 + int q) div 256), word_of_int ((4096 + int q) mod 256))"
proof -
  assume q: "q < 4096"
  obtain b0 b1 where p: "PutUint16 (word_of_int (4096 + int q)) = (b0, b1)" by (cases "PutUint16 (word_of_int (4096 + int q))")
  from uint_PutUint16 [OF p] subnet_word [OF q]
  have "uint b0 = (4096 + int q) div 256" "uint b1 = (4096 + int q) mod 256" by simp_all
  then have "b0 = word_of_int ((4096 + int q) div 256) \<and> b1 = word_of_int ((4096 + int q) mod 256)"
    by (simp add: byte_of_uint)
  with p show ?thesis by (simp only:)
qed

lemma probe_after_free:
  assumes "fresh ds tid t" and "subnetCount q r < 4096"
  shows "probeSubnets (claimedAfter ds q r) 16 0
           = Some (word_of_int ((4096 + int (subnetCount q r)) div 256),
                   word_of_int ((4096 + int (subnetCount q r)) mod 256),
                   word_of_int (4096 + int (subnetCount q r)))"
proof (rule probe_first_free)
  show "\<forall>k. 4096 \<le> k \<and> k < 4096 + int (subnetCount q r) \<longrightarrow> lookupBool (claimedAfter ds q r) k"
    by (simp add: claimedAfter_def lookupBool_def)
  have "\<not> lookupBool (allSubnets ds) (4096 + int (subnetCount q r))"
    using assms by (simp add: fresh_def)
  moreover have "claimedAfter ds q r (4096 + int (subnetCount q r)) = allSubnets ds (4096 + int (subnetCount q r))"
    by (simp add: claimedAfter_def)
  ultimately show "\<not> lookupBool (claimedAfter ds q r) (4096 + int (subnetCount q r))"
    by (simp add: lookupBool_def)
  show "4096 \<le> 4096 + int (subnetCount q r)" by simp
  show "4096 + int (subnetCount q r) \<le> 8191" using assms(2) by simp
qed

lemma probe_after_none:
  assumes "subnetCount q r = 4096"
  shows "probeSubnets (claimedAfter ds q r) 16 0 = None"
  by (rule probe_none_free) (simp add: claimedAfter_def lookupBool_def assms)

lemma claimedAfter_new: "(claimedAfter ds q 0)(4096 + int q \<mapsto> True) = claimedAfter ds q 1"
  by (auto simp: claimedAfter_def subnetCount_def fun_eq_iff)

lemma networkAfter_new': "((networkAfter t q 0)(4096 + int q \<mapsto> Map.empty))(4096 + int q \<mapsto> hostsUpTo 1) = networkAfter t q 1"
  by (auto simp: networkAfter_def fun_eq_iff)

lemma networkAfter_next:
  "0 < r \<Longrightarrow> (networkAfter t q r)(4096 + int q \<mapsto> hostsUpTo (Suc r)) = networkAfter t q (Suc r)"
  by (auto simp: networkAfter_def fun_eq_iff)

lemma subnetsAfter_new: "subnetsAfter q 0 @ [4096 + int q] = subnetsAfter q 1"
  by (simp add: subnetsAfter_def subnetCount_def)

lemma subnetsAfter_next: "0 < r \<Longrightarrow> subnetsAfter q (Suc r) = subnetsAfter q r"
  by (simp add: subnetsAfter_def subnetCount_def)

lemma claimedAfter_next: "0 < r \<Longrightarrow> claimedAfter ds q (Suc r) = claimedAfter ds q r"
  by (simp add: claimedAfter_def subnetCount_def)

lemma ucast_rest: "ucast (word_of_int h :: goint) = (word_of_int h :: byte)"
  by (rule ucast_goint_byte)

lemma alloc_new:
  assumes f: "fresh ds tid t" and q: "q < 4096"
  shows "AllocateTenantIP (storeAfter ds tid t q 0) tid
           = Return (storeAfter ds tid t q 1, subnetAddress (4096 + int q) 2, None)"
proof -
  let ?S = "storeAfter ds tid t q 0" and ?T = "tenantAfter t q 0"
  define s where "s = 4096 + int q"
  define i :: uint16 where "i = word_of_int s"
  define b0 :: byte where "b0 = word_of_int (s div 256)"
  define b1 :: byte where "b1 = word_of_int (s mod 256)"
  have ui: "uint i = s" unfolding i_def s_def by (rule subnet_word [OF q])
  have sc: "subnetCount q 0 = q" by (simp add: subnetCount_def)
  have T: "map_of (tenants ?S) tid = Some ?T" by (rule tenant_of_storeAfter)
  have srt: "sort (subnets ?T) = subnetsAfter q 0" by (simp add: tenantAfter_def sorted_subnetsAfter)
  have scan: "scanSubnets (network ?T) (subnetsAfter q 0) 0 = 0"
    using scan_after [of t q 0] by (simp add: tenantAfter_def)
  have probe: "probeSubnets (allSubnets ?S) 16 0 = Some (b0, b1, i)"
    using probe_after_free [OF f, of q 0] q
    by (simp only: sc storeAfter_def b0_def b1_def i_def s_def) simp
  let ?t2 = "?T\<lparr>subnets := subnetsAfter q 0, network := (network ?T)(s \<mapsto> Map.empty),
                 subnets := subnetsAfter q 0 @ [s]\<rparr>"
  let ?ds1 = "?S\<lparr>tenants := AList.update tid (?T\<lparr>subnets := subnetsAfter q 0\<rparr>) (tenants ?S)\<rparr>"
  let ?ds2 = "?ds1\<lparr>allSubnets := (allSubnets ?S)(s \<mapsto> True),
                    tenants := AList.update tid ?t2 (tenants ?ds1)\<rparr>"
  have unfold: "AllocateTenantIP ?S tid = claimHost ?ds2 tid ?t2 b0 b1 i"
    unfolding AllocateTenantIP_def
    by (simp only: T option.case Let_def srt scan if_True simp_thms probe prod.case ui)
  have host: "probeHosts Map.empty 2 = Some (hostsUpTo 1, word_of_int 2)"
    using probeHosts_empty by simp
  have net2: "network ?t2 s = Some Map.empty" by simp
  have claim: "claimHost ?ds2 tid ?t2 b0 b1 i
      = Return (?ds2\<lparr>tenants := AList.update tid (?t2\<lparr>network := (network ?t2)(s \<mapsto> hostsUpTo 1)\<rparr>) (tenants ?ds2)\<rparr>,
                IP4 172 b0 b1 (ucast (word_of_int 2 :: goint)), None)"
    using net2 host ui by (rule claimHost_step)
  have final: "?ds2\<lparr>tenants := AList.update tid (?t2\<lparr>network := (network ?t2)(s \<mapsto> hostsUpTo 1)\<rparr>) (tenants ?ds2)\<rparr>
      = storeAfter ds tid t q 1"
    using claimedAfter_new [of ds q] networkAfter_new' [of t q] subnetsAfter_new [of q]
    by (simp add: tenantAfter_def storeAfter_def s_def)
  have addr: "IP4 172 b0 b1 (ucast (word_of_int 2 :: goint)) = subnetAddress (4096 + int q) 2"
    by (simp only: subnetAddress_def b0_def b1_def s_def ucast_rest)
  show ?thesis by (simp only: unfold claim final addr)
qed

lemma alloc_reuse:
  assumes f: "fresh ds tid t" and q: "q < 4096" and r: "0 < r" "r < 253"
  shows "AllocateTenantIP (storeAfter ds tid t q r) tid
           = Return (storeAfter ds tid t q (Suc r), subnetAddress (4096 + int q) (2 + int r), None)"
proof -
  let ?S = "storeAfter ds tid t q r" and ?T = "tenantAfter t q r"
  define s where "s = 4096 + int q"
  define i :: uint16 where "i = word_of_int s"
  define b0 :: byte where "b0 = word_of_int (s div 256)"
  define b1 :: byte where "b1 = word_of_int (s mod 256)"
  have ui: "uint i = s" unfolding i_def s_def by (rule subnet_word [OF q])
  have nz: "(i = 0) = False" using subnet_word_nonzero [OF q] by (simp add: i_def s_def)
  have put: "PutUint16 i = (b0, b1)"
    unfolding i_def s_def b0_def b1_def by (rule PutUint16_subnet [OF q])
  have T: "map_of (tenants ?S) tid = Some ?T" by (rule tenant_of_storeAfter)
  have srt: "sort (subnets ?T) = subnetsAfter q r" by (simp add: tenantAfter_def sorted_subnetsAfter)
  have scan: "scanSubnets (network ?T) (subnetsAfter q r) 0 = i"
    using scan_after [of t q r] r by (simp add: tenantAfter_def i_def s_def)
  let ?t1 = "?T\<lparr>subnets := subnetsAfter q r\<rparr>"
  let ?ds1 = "?S\<lparr>tenants := AList.update tid ?t1 (tenants ?S)\<rparr>"
  have unfold: "AllocateTenantIP ?S tid = claimHost ?ds1 tid ?t1 b0 b1 i"
    unfolding AllocateTenantIP_def
    by (simp only: T option.case Let_def srt scan nz if_False put prod.case)
  have host: "probeHosts (hostsUpTo r) 2 = Some (hostsUpTo (Suc r), word_of_int (2 + int r))"
    using probeHosts_fresh [of r] r by simp
  have net1: "network ?t1 s = Some (hostsUpTo r)"
    using networkAfter_last [OF r(1), of t q] by (simp add: tenantAfter_def s_def)
  have claim: "claimHost ?ds1 tid ?t1 b0 b1 i
      = Return (?ds1\<lparr>tenants := AList.update tid (?t1\<lparr>network := (network ?t1)(s \<mapsto> hostsUpTo (Suc r))\<rparr>) (tenants ?ds1)\<rparr>,
                IP4 172 b0 b1 (ucast (word_of_int (2 + int r) :: goint)), None)"
    using net1 host ui by (rule claimHost_step)
  have final: "?ds1\<lparr>tenants := AList.update tid (?t1\<lparr>network := (network ?t1)(s \<mapsto> hostsUpTo (Suc r))\<rparr>) (tenants ?ds1)\<rparr>
      = storeAfter ds tid t q (Suc r)"
    using networkAfter_next [OF r(1), of t q] subnetsAfter_next [OF r(1), of q] claimedAfter_next [OF r(1), of ds q]
    by (simp add: tenantAfter_def storeAfter_def s_def)
  have addr: "IP4 172 b0 b1 (ucast (word_of_int (2 + int r) :: goint)) = subnetAddress (4096 + int q) (2 + int r)"
    by (simp only: subnetAddress_def b0_def b1_def s_def ucast_rest)
  show ?thesis by (simp only: unfold claim final addr)
qed

lemma alloc_exhausted:
  "AllocateTenantIP (storeAfter ds tid t 4096 0) tid
     = Return (storeAfter ds tid t 4096 0, IPnil, Some OutOfSubnets)"
proof -
  let ?S = "storeAfter ds tid t 4096 0" and ?T = "tenantAfter t 4096 0"
  have T: "map_of (tenants ?S) tid = Some ?T" by (rule tenant_of_storeAfter)
  have srt: "sort (subnets ?T) = subnetsAfter 4096 0" by (simp add: tenantAfter_def sorted_subnetsAfter)
  have scan: "scanSubnets (network ?T) (subnetsAfter 4096 0) 0 = 0"
    using scan_after [of t 4096 0] by (simp add: tenantAfter_def)
  have probe: "probeSubnets (allSubnets ?S) 16 0 = None"
    using probe_after_none [of 4096 0 ds] by (simp add: subnetCount_def storeAfter_def)
  have same: "?T\<lparr>subnets := subnetsAfter 4096 0\<rparr> = ?T"
    by (cases t) (simp add: tenantAfter_def)
  have unfold: "AllocateTenantIP ?S tid
      = Return (?S\<lparr>tenants := AList.update tid ?T (tenants ?S)\<rparr>, IPnil, Some OutOfSubnets)"
    unfolding AllocateTenantIP_def
    by (simp only: T option.case Let_def srt scan if_True simp_thms probe same)
  have "?S\<lparr>tenants := AList.update tid ?T (tenants ?S)\<rparr> = ?S"
    by (simp add: storeAfter_def)
  with unfold show ?thesis by (simp only:)
qed

lemma allocate_at:
  assumes f: "fresh ds tid t"
  shows "AllocateTenantIP (storeAt ds tid t n) tid = Return (storeAt ds tid t (Suc n), nthResult n)"
proof (cases "n < 253 * 4096")
  case False
  then have "storeAt ds tid t n = storeAfter ds tid t 4096 0"
    and "storeAt ds tid t (Suc n) = storeAfter ds tid t 4096 0"
    by (simp_all add: storeAt_def min_def)
  with False show ?thesis by (simp add: alloc_exhausted nthResult_def)
next
  case True
  define q r where "q = n div 253" and "r = n mod 253"
  have q: "q < 4096" using True by (simp add: q_def div_less_iff_less_mult)
  have r: "r < 253" by (simp add: r_def)
  have at: "storeAt ds tid t n = storeAfter ds tid t q r"
    using True by (simp add: storeAt_def q_def r_def)
  have suc: "storeAt ds tid t (Suc n) = storeAfter ds tid t q (Suc r)"
  proof (cases "Suc r = 253")
    case False
    with r have "Suc n div 253 = q" "Suc n mod 253 = Suc r"
      by (simp_all add: q_def r_def div_Suc mod_Suc)
    moreover have "min (Suc n) (253 * 4096) = Suc n" using True by simp
    ultimately show ?thesis by (simp only: storeAt_def)
  next
    case c: True
    then have "Suc n div 253 = Suc q" "Suc n mod 253 = 0"
      by (simp_all add: q_def r_def div_Suc mod_Suc)
    moreover have "min (Suc n) (253 * 4096) = Suc n" using True by simp
    ultimately have "storeAt ds tid t (Suc n) = storeAfter ds tid t (Suc q) 0" by (simp only: storeAt_def)
    with c show ?thesis by (simp add: storeAfter_carry)
  qed
  have res: "nthResult n = (subnetAddress (4096 + int q) (2 + int r), None)"
    using True by (simp add: nthResult_def nthAddress_def q_def r_def)
  show ?thesis
  proof (cases "r = 0")
    case z: True
    then show ?thesis using alloc_new [OF f q] by (simp add: at suc res)
  next
    case False
    then show ?thesis using alloc_reuse [OF f q _ r] by (simp add: at suc res)
  qed
qed

lemma storeAt_0: "fresh ds tid t \<Longrightarrow> storeAt ds tid t 0 = ds"
  by (simp add: storeAt_def fresh_def storeAfter_0)

lemma allocations_run:
  assumes f: "fresh ds tid t"
  shows "allocations n ds tid = Return (storeAt ds tid t n, map nthResult [0 ..< n])"
proof (induction n)
  case 0
  show ?case using f by (simp add: storeAt_0)
next
  case (Suc n)
  show ?case by (simp add: Suc allocate_at [OF f])
qed

lemma nthAddress_inj:
  assumes "k < 253 * 4096" "k' < 253 * 4096" "nthAddress k = nthAddress k'"
  shows "k = k'"
proof -
  define s s' where "s = 4096 + int (k div 253)" and "s' = 4096 + int (k' div 253)"
  have sb: "4096 \<le> s" "s < 8192" "4096 \<le> s'" "s' < 8192"
    using assms(1,2) by (simp_all add: s_def s'_def div_less_iff_less_mult)
  from assms(3) have e: "(word_of_int (s div 256) :: byte) = word_of_int (s' div 256)"
    "(word_of_int (s mod 256) :: byte) = word_of_int (s' mod 256)"
    "(word_of_int (2 + int (k mod 253)) :: byte) = word_of_int (2 + int (k' mod 253))"
    by (simp_all add: nthAddress_def subnetAddress_def s_def s'_def del: of_int_add)
  have "s div 256 = s' div 256" using sb by (intro byte_of_int_inj [OF _ _ _ _ e(1)]) simp_all
  moreover have "s mod 256 = s' mod 256" using sb by (intro byte_of_int_inj [OF _ _ _ _ e(2)]) simp_all
  ultimately have "s = s'" by (metis mult_div_mod_eq)
  then have d: "k div 253 = k' div 253" by (simp add: s_def s'_def)
  have "2 + int (k mod 253) = 2 + int (k' mod 253)"
    by (intro byte_of_int_inj [OF _ _ _ _ e(3)]) simp_all
  then have m: "k mod 253 = k' mod 253" by simp
  from d m show ?thesis by (metis mult_div_mod_eq)
qed

lemma fresh_tenantStore: "fresh tenantStore ''t'' freshTenant"
  by (simp add: fresh_def tenantStore_def emptyDatastore_def freshTenant_def lookupBool_def)

text \<open>
  Claim C2, as the code has it. The probe runs over the subnet indices 16.0 to 31.255, which
  are 4096 indices and not 30. For a tenant with no subnet, in a datastore where none of these
  indices is claimed, calls of \<^verbatim>\<open>AllocateTenantIP\<close> in a row with no release return: for
  the first 253 * 4096 = 1036288 calls, call \<open>k\<close> (from 0) the address
  172.\<open>s div 256\<close>.\<open>s mod 256\<close>.\<open>2 + k mod 253\<close> with \<open>s = 4096 + k div 253\<close> and no
  error, and these addresses are pairwise different; for every later call, no address and
  the error "Out of subnets".
\<close>

theorem allocation_exhaustion:
  "fresh ds tid t \<Longrightarrow>
   (case allocations n ds tid of
      Panic p \<Rightarrow> False
    | Return (ds', rs) \<Rightarrow> rs = map nthResult [0 ..< n])
   \<and> inj_on nthAddress {..< 253 * 4096}"
  by (simp add: allocations_run inj_on_def nthAddress_inj)

theorem allocation_exhaustion_witness:
  "(case allocations 2 tenantStore ''t'' of
      Panic p \<Rightarrow> False
    | Return (ds', rs) \<Rightarrow> rs = [(IP4 172 16 0 2, None), (IP4 172 16 0 3, None)])"
proof -
  have m: "map nthResult [0 ..< 2] = [(IP4 172 16 0 2, None), (IP4 172 16 0 3, None)]"
    by (simp add: numeral_2_eq_2 nthResult_def nthAddress_def subnetAddress_def)
  show ?thesis
    using allocation_exhaustion [OF fresh_tenantStore, of 2] by (simp only: m)
qed

text \<open>
  For the example tenant, of 1036289 calls in a row the call after 253 * 30 = 7590
  addresses returns 172.16.30.2, the last address is 172.31.255.254, returned by call
  number 1036288, and the call after it is the first to return "Out of subnets".
\<close>

theorem allocation_bound_counterexample:
  "(case allocations 1036289 tenantStore ''t'' of
      Panic p \<Rightarrow> False
    | Return (ds', rs) \<Rightarrow>
        rs ! 7590 = (IP4 172 16 30 2, None)
        \<and> rs ! 1036287 = (IP4 172 31 255 254, None)
        \<and> rs ! 1036288 = (IPnil, Some OutOfSubnets))"
  by (simp add: allocations_run [OF fresh_tenantStore] nthResult_def nthAddress_def subnetAddress_def)

subsection \<open>Release\<close>

lemma uint_example: "uint (Uint16 16 0) = 4096"
  by (simp add: uint_Uint16)

lemma parse2: "parseExample ''172.16.0.2'' = IP4 172 16 0 2"
  by (simp add: parseExample_def)

lemma parse3: "parseExample ''172.16.0.3'' = IP4 172 16 0 3"
  by (simp add: parseExample_def)

lemma hostsUpTo_1: "hostsUpTo (Suc 0) = [2 \<mapsto> True]"
  by (auto simp: hostsUpTo_def fun_eq_iff)

lemma storeAt_1: "storeAt tenantStore ''t'' freshTenant (Suc 0) = allocatedStore"
proof -
  have "networkAfter freshTenant 0 1 = [4096 \<mapsto> [2 \<mapsto> True]]"
    by (auto simp: networkAfter_def fun_eq_iff hostsUpTo_1 freshTenant_def)
  moreover have "claimedAfter tenantStore 0 1 = [4096 \<mapsto> True]"
    by (auto simp: claimedAfter_def subnetCount_def fun_eq_iff tenantStore_def emptyDatastore_def)
  moreover have "subnetsAfter 0 1 = [4096]" by (simp add: subnetsAfter_def subnetCount_def)
  ultimately show ?thesis
    by (simp add: storeAt_def storeAfter_def tenantAfter_def allocatedStore_def allocatedTenant_def tenantStore_def)
qed

lemma first_allocation: "AllocateTenantIP tenantStore ''t'' = Return (allocatedStore, IP4 172 16 0 2, None)"
  using allocate_at [OF fresh_tenantStore, of 0]
  by (simp add: storeAt_0 [OF fresh_tenantStore] storeAt_1 nthResult_def nthAddress_def subnetAddress_def)

lemma release_step:
  assumes "map_of (tenants ds) tid = Some t" and "parseIP ip = IP4 a0 a1 a2 a3"
    and "network t (uint (Uint16 a1 a2)) = Some hosts"
  shows "ReleaseTenantIP parseIP ds tid ip =
           Return (ds\<lparr>tenants := AList.update tid (markReleased t (uint (Uint16 a1 a2)) (uint a3)) (tenants ds)\<rparr>,
                   releaseTenantIP_db (db ds) tid (uint (Uint16 a1 a2)) (uint a3))"
  using assms by (simp add: ReleaseTenantIP_def markReleased_def Let_def)

lemma markReleased_idem: "markReleased (markReleased t s h) s h = markReleased t s h"
  by (simp add: markReleased_def)

lemma markReleased_same:
  "network t s = Some hosts \<Longrightarrow> hosts h = Some False \<Longrightarrow> markReleased t s h = t"
  by (simp add: markReleased_def fun_upd_idem)

text \<open>
  Claim C3, as the code has it. For a tenant in the datastore and a well-formed IPv4 address
  whose subnet is in the tenant's network table, \<^verbatim>\<open>ReleaseTenantIP\<close> returns what the
  persistent store's release returns and changes nothing but the entry of that host, which
  reads unclaimed afterwards; for an address released already the datastore is left as it
  is; and a second release of the same address returns the same and leaves the datastore
  as the first release left it.
\<close>

theorem release_unclaimed:
  "map_of (tenants ds) tid = Some t \<Longrightarrow> parseIP ip = IP4 a0 a1 a2 a3 \<Longrightarrow>
   network t (uint (Uint16 a1 a2)) = Some hosts \<Longrightarrow>
   (case ReleaseTenantIP parseIP ds tid ip of
      Panic p \<Rightarrow> False
    | Return (ds1, err) \<Rightarrow>
        err = releaseTenantIP_db (db ds) tid (uint (Uint16 a1 a2)) (uint a3)
        \<and> ds1 = ds\<lparr>tenants := AList.update tid (markReleased t (uint (Uint16 a1 a2)) (uint a3)) (tenants ds)\<rparr>
        \<and> (hosts (uint a3) = Some False \<longrightarrow> ds1 = ds)
        \<and> ReleaseTenantIP parseIP ds1 tid ip = Return (ds1, err))"
proof -
  assume t: "map_of (tenants ds) tid = Some t" and ip: "parseIP ip = IP4 a0 a1 a2 a3"
    and h: "network t (uint (Uint16 a1 a2)) = Some hosts"
  let ?s = "uint (Uint16 a1 a2)" and ?h = "uint a3"
  let ?t1 = "markReleased t ?s ?h"
  let ?ds1 = "ds\<lparr>tenants := AList.update tid ?t1 (tenants ds)\<rparr>"
  have one: "ReleaseTenantIP parseIP ds tid ip = Return (?ds1, releaseTenantIP_db (db ds) tid ?s ?h)"
    using t ip h by (rule release_step)
  have same: "?ds1 = ds" if "hosts ?h = Some False"
    using markReleased_same [OF h that] t by (simp add: update_triv)
  have t1: "map_of (tenants ?ds1) tid = Some ?t1" by (simp add: update_conv')
  have h1: "network ?t1 ?s = Some (hosts(?h \<mapsto> False))" using h by (simp add: markReleased_def)
  have two: "ReleaseTenantIP parseIP ?ds1 tid ip = Return (?ds1, releaseTenantIP_db (db ds) tid ?s ?h)"
    using release_step [where ds = ?ds1 and t = ?t1 and parseIP = parseIP, OF t1 ip h1]
    by (simp add: markReleased_idem)
  show ?thesis using one same two by simp
qed

theorem release_unclaimed_witness:
  "ReleaseTenantIP parseExample allocatedStore ''t'' ''172.16.0.2'' = Return (releasedStore, None)
   \<and> ReleaseTenantIP parseExample releasedStore ''t'' ''172.16.0.2'' = Return (releasedStore, None)"
proof -
  have 1: "ReleaseTenantIP parseExample allocatedStore ''t'' ''172.16.0.2'' = Return (releasedStore, None)"
    using release_unclaimed [of allocatedStore "''t''" allocatedTenant parseExample "''172.16.0.2''" 172 16 0 2 "[2 \<mapsto> True]"]
    by (auto simp: parse2 uint_example allocatedStore_def allocatedTenant_def releasedStore_def markReleased_def
        tenantStore_def emptyDatastore_def okStore_def split: outcome.splits)
  have 2: "ReleaseTenantIP parseExample releasedStore ''t'' ''172.16.0.2'' = Return (releasedStore, None)"
    using release_unclaimed [of releasedStore "''t''" "freshTenant\<lparr>subnets := [4096], network := [4096 \<mapsto> [2 \<mapsto> False]]\<rparr>"
        parseExample "''172.16.0.2''" 172 16 0 2 "[2 \<mapsto> False]"]
    by (auto simp: parse2 uint_example releasedStore_def
        tenantStore_def emptyDatastore_def okStore_def split: outcome.splits)
  from 1 2 show ?thesis by simp
qed

text \<open>
  The example tenant before any allocation has no subnet: the release of 172.16.0.2 writes
  to the host map of a subnet its table does not hold. After its first allocation the
  subnet 16.0 has one key: the release of 172.16.0.3, which was never claimed, adds a
  second.
\<close>

theorem release_unclaimed_counterexample:
  "ReleaseTenantIP parseExample tenantStore ''t'' ''172.16.0.2'' = Panic NilMapAssignment
   \<and> hostEntries allocatedStore ''t'' 4096 = 1
   \<and> (case ReleaseTenantIP parseExample allocatedStore ''t'' ''172.16.0.3'' of
         Panic p \<Rightarrow> False
       | Return (ds1, err) \<Rightarrow> hostEntries ds1 ''t'' 4096 = 2)"
  by (simp add: ReleaseTenantIP_def parse2 parse3 uint_example tenantStore_def freshTenant_def
      emptyDatastore_def allocatedStore_def allocatedTenant_def hostEntries_def len_def)

subsection \<open>Reuse of a released address\<close>

lemma allocate_new_subnet:
  assumes T: "map_of (tenants ds) tid = Some T"
    and full: "\<forall>k \<in> set (subnets T). \<not> len (network T k) < 253"
    and probe: "probeSubnets (allSubnets ds) 16 0 = Some (b0, b1, i)"
  shows "\<exists>ds'. AllocateTenantIP ds tid = Return (ds', IP4 172 b0 b1 2, None)"
proof -
  have scan: "scanSubnets (network T) (sort (subnets T)) 0 = 0"
    by (rule scanSubnets_full) (simp add: full)
  let ?t1 = "T\<lparr>subnets := sort (subnets T)\<rparr>"
  let ?ds1 = "ds\<lparr>tenants := AList.update tid ?t1 (tenants ds)\<rparr>"
  let ?t2 = "?t1\<lparr>network := (network T)(uint i \<mapsto> Map.empty), subnets := sort (subnets T) @ [uint i]\<rparr>"
  let ?ds2 = "?ds1\<lparr>allSubnets := (allSubnets ds)(uint i \<mapsto> True),
                    tenants := AList.update tid ?t2 (tenants ?ds1)\<rparr>"
  have unfold: "AllocateTenantIP ds tid = claimHost ?ds2 tid ?t2 b0 b1 i"
    unfolding AllocateTenantIP_def
    by (simp only: T option.case Let_def scan if_True simp_thms probe prod.case)
  have net2: "network ?t2 (uint i) = Some Map.empty" by simp
  have host: "probeHosts Map.empty 2 = Some (hostsUpTo 1, 2)" by (rule probeHosts_empty)
  have "claimHost ?ds2 tid ?t2 b0 b1 i
      = Return (?ds2\<lparr>tenants := AList.update tid (?t2\<lparr>network := (network ?t2)(uint i \<mapsto> hostsUpTo 1)\<rparr>) (tenants ?ds2)\<rparr>,
                IP4 172 b0 b1 (ucast (2 :: goint)), None)"
    using net2 host refl by (rule claimHost_step)
  with unfold show ?thesis by simp
qed

lemma storeAt_253: "storeAt tenantStore ''t'' freshTenant 253 = storeAfter tenantStore ''t'' freshTenant 1 0"
  by (simp add: storeAt_def)

lemma hosts_released_len: "len (Some ((hostsUpTo 253)(2 \<mapsto> False))) = 253"
proof -
  have "dom ((hostsUpTo 253)(2 \<mapsto> False)) = {2 ..< 255}"
    by (auto simp: hostsUpTo_def dom_def)
  then show ?thesis by (simp add: len_def)
qed

lemma hosts_released_claimed: "card {h. ((hostsUpTo 253)(2 \<mapsto> False)) h = Some True} = 252"
proof -
  have "{h. ((hostsUpTo 253)(2 \<mapsto> False)) h = Some True} = {3 ..< 255}"
    by (auto simp: hostsUpTo_def)
  then show ?thesis by simp
qed

text \<open>
  Claim C4, at an input where the code departs from it. The example tenant allocates 253
  addresses, which fill the subnet 16.0 (172.16.0.2 to 172.16.0.254), and releases
  172.16.0.2: the subnet then holds 252 claimed hosts. The next allocation does not reuse
  it: it returns 172.16.1.2, in a new subnet.
\<close>

theorem released_host_not_reused:
  "(case allocations 253 tenantStore ''t'' of
      Panic p \<Rightarrow> False
    | Return (ds1, rs) \<Rightarrow>
        (case ReleaseTenantIP parseExample ds1 ''t'' ''172.16.0.2'' of
           Panic p \<Rightarrow> False
         | Return (ds2, err) \<Rightarrow>
             claimedHosts ds2 ''t'' 4096 = 252
             \<and> (case AllocateTenantIP ds2 ''t'' of
                  Panic p \<Rightarrow> False
                | Return (ds3, ip, err) \<Rightarrow> ip = IP4 172 16 1 2 \<and> err = None)))"
proof -
  let ?S = "storeAfter tenantStore ''t'' freshTenant 1 0"
  let ?T = "tenantAfter freshTenant 1 0"
  let ?T' = "markReleased ?T 4096 2"
  let ?S' = "?S\<lparr>tenants := AList.update ''t'' ?T' (tenants ?S)\<rparr>"
  have run: "allocations 253 tenantStore ''t'' = Return (?S, map nthResult [0 ..< 253])"
    by (simp add: allocations_run [OF fresh_tenantStore] storeAt_253)
  have T: "map_of (tenants ?S) ''t'' = Some ?T" by (rule tenant_of_storeAfter)
  have net: "network ?T 4096 = Some (hostsUpTo 253)"
    by (simp add: tenantAfter_def networkAfter_def)
  have rel: "ReleaseTenantIP parseExample ?S ''t'' ''172.16.0.2'' = Return (?S', None)"
    using release_step [of ?S "''t''" ?T parseExample "''172.16.0.2''" 172 16 0 2 "hostsUpTo 253"] T net
    by (simp add: parse2 uint_example storeAfter_def tenantStore_def emptyDatastore_def okStore_def)
  have T': "map_of (tenants ?S') ''t'' = Some ?T'" by (simp add: update_conv')
  have net': "network ?T' = (network ?T)(4096 \<mapsto> (hostsUpTo 253)(2 \<mapsto> False))"
    using net by (simp add: markReleased_def)
  have claimed: "claimedHosts ?S' ''t'' 4096 = 252"
    by (simp only: claimedHosts_def T' option.case net' fun_upd_same hosts_released_claimed)
  have subs: "subnets ?T' = [4096]"
    by (simp add: markReleased_def tenantAfter_def subnetsAfter_def subnetCount_def)
  have "len (network ?T' 4096) = 253"
    by (simp only: net' fun_upd_same hosts_released_len)
  then have full: "\<forall>k \<in> set (subnets ?T'). \<not> len (network ?T' k) < 253"
    by (simp only: subs) simp
  have "probeSubnets (claimedAfter tenantStore 1 0) 16 0
          = Some (word_of_int ((4096 + int (subnetCount 1 0)) div 256),
                  word_of_int ((4096 + int (subnetCount 1 0)) mod 256),
                  word_of_int (4096 + int (subnetCount 1 0)))"
    by (rule probe_after_free [OF fresh_tenantStore]) (simp add: subnetCount_def)
  then have probe: "probeSubnets (allSubnets ?S') 16 0 = Some (16, 1, 4097)"
    by (simp add: subnetCount_def storeAfter_def)
  from allocate_new_subnet [OF T' full probe]
  obtain ds3 where "AllocateTenantIP ?S' ''t'' = Return (ds3, IP4 172 16 1 2, None)" by blast
  with run rel claimed show ?thesis by simp
qed

subsection \<open>Adding and deleting an instance\<close>

lemma updFirst_commute:
  assumes "\<And>r. c1 (f2 r) = c1 r" and "\<And>r. c2 (f1 r) = c2 r" and "\<And>r. f1 (f2 r) = f2 (f1 r)"
  shows "updFirst c1 f1 (updFirst c2 f2 rs) = updFirst c2 f2 (updFirst c1 f1 rs)"
  by (induction rs) (simp_all add: assms)

lemma updFirst_inverse:
  assumes "\<And>r. c (f r) = c r" and "\<And>r. g (f r) = r"
  shows "updFirst c g (updFirst c f rs) = rs"
  by (induction rs) (simp_all add: assms)

lemma addUsage_Cons: "addUsage ((name, val) # us) rs = addUsage us (add1 name val rs)"
  by (simp add: addUsage_def add1_def)

lemma subUsage_Cons: "subUsage ((name, val) # us) rs = subUsage us (sub1 name val rs)"
  by (simp add: subUsage_def sub1_def)

lemma sub1_add1: "sub1 name val (add1 name val rs) = rs"
  unfolding sub1_def add1_def by (rule updFirst_inverse) simp_all

lemma sub1_add1_commute: "sub1 n v (add1 m w rs) = add1 m w (sub1 n v rs)"
  unfolding sub1_def add1_def by (rule updFirst_commute) simp_all

lemma sub1_inc_commute: "sub1 n v (incInstances rs) = incInstances (sub1 n v rs)"
  unfolding sub1_def incInstances_def by (rule updFirst_commute) simp_all

lemma sub1_addUsage: "sub1 n v (addUsage us rs) = addUsage us (sub1 n v rs)"
proof (induction us arbitrary: rs)
  case Nil
  show ?case by (simp add: addUsage_def)
next
  case (Cons u us)
  obtain m w where u: "u = (m, w)" by (cases u)
  show ?case by (simp add: u addUsage_Cons Cons sub1_add1_commute)
qed

lemma subUsage_inc_addUsage: "subUsage us (incInstances (addUsage us rs)) = incInstances rs"
proof (induction us arbitrary: rs)
  case Nil
  show ?case by (simp add: addUsage_def subUsage_def)
next
  case (Cons u us)
  obtain n v where u: "u = (n, v)" by (cases u)
  have "sub1 n v (incInstances (addUsage us (add1 n v rs))) = incInstances (addUsage us rs)"
    by (simp add: sub1_inc_commute sub1_addUsage sub1_add1)
  then show ?case by (simp add: u addUsage_Cons subUsage_Cons Cons)
qed

lemma dec_inc: "decInstances (incInstances rs) = rs"
  unfolding decInstances_def incInstances_def by (rule updFirst_inverse) simp_all

lemma usage_restored:
  "decInstances (subUsage us (incInstances (addUsage us rs))) = rs"
  by (simp add: subUsage_inc_addUsage dec_inc)

lemma release_frame:
  assumes t: "map_of (tenants ds) tid = Some t" and rel: "releasable parseIP t ip"
  shows "\<exists>net err. ReleaseTenantIP parseIP ds tid ip
           = Return (ds\<lparr>tenants := AList.update tid (t\<lparr>network := net\<rparr>) (tenants ds)\<rparr>, err)"
proof (cases "parseIP ip")
  case IPnil
  have "ds\<lparr>tenants := AList.update tid (t\<lparr>network := network t\<rparr>) (tenants ds)\<rparr> = ds"
    using t by (simp add: update_triv)
  then show ?thesis using IPnil by (auto simp: ReleaseTenantIP_def intro!: exI [of _ "network t"])
next
  case IP16
  have "ds\<lparr>tenants := AList.update tid (t\<lparr>network := network t\<rparr>) (tenants ds)\<rparr> = ds"
    using t by (simp add: update_triv)
  then show ?thesis using IP16 by (auto simp: ReleaseTenantIP_def intro!: exI [of _ "network t"])
next
  case (IP4 a0 a1 a2 a3)
  with rel obtain hosts where "network t (uint (Uint16 a1 a2)) = Some hosts"
    by (auto simp: releasable_def)
  with t IP4 show ?thesis by (auto simp: ReleaseTenantIP_def Let_def)
qed

lemma delete_after_add:
  assumes t: "map_of (tenants ds) (Instance_TenantID inst) = Some t"
    and n: "nodeKnown ds inst"
    and rel: "releasable parseIP t (Instance_IPAddress inst)"
  shows "\<exists>ds' err. deleteInstance parseIP (fst (AddInstance ds inst now)) (Instance_ID inst) = Return (ds', err)
           \<and> tenantResources ds' (Instance_TenantID inst) = Resources t
           \<and> instances ds' (Instance_ID inst) = None
           \<and> instanceLastStat ds' (Instance_ID inst) = None
           \<and> \<not> inTenantMap ds' (Instance_TenantID inst) (Instance_ID inst)
           \<and> (Instance_NodeID inst \<noteq> [] \<longrightarrow> \<not> inNodeMap ds' (Instance_NodeID inst) (Instance_ID inst))"
proof -
  let ?id = "Instance_ID inst" and ?tid = "Instance_TenantID inst" and ?nid = "Instance_NodeID inst"
  let ?ip = "Instance_IPAddress inst"
  let ?tA = "t\<lparr>Resources := incInstances (addUsage (Instance_Usage inst) (Resources t)),
               tenant_instances := (tenant_instances t)(?id \<mapsto> inst)\<rparr>"
  define dsA where "dsA = fst (AddInstance ds inst now)"
  have A_inst: "instances dsA ?id = Some inst"
    and A_ten: "map_of (tenants dsA) ?tid = Some ?tA"
    and A_nodes: "nodes dsA = nodes ds"
    using t by (simp_all add: dsA_def AddInstance_def Let_def update_conv')
  let ?t1 = "?tA\<lparr>tenant_instances := (tenant_instances ?tA)(?id := None)\<rparr>"
  let ?t2 = "?t1\<lparr>Resources := decInstances (subUsage (Instance_Usage inst) (Resources ?t1))\<rparr>"
  have rel2: "releasable parseIP ?t2 ?ip"
    using rel by (simp add: releasable_def split: IP.splits)
  let ?ds2 = "dsA\<lparr>instanceLastStat := (instanceLastStat dsA)(?id := None)\<rparr>\<lparr>instances :=
                 (instances (dsA\<lparr>instanceLastStat := (instanceLastStat dsA)(?id := None)\<rparr>))(?id := None)\<rparr>"
  let ?ds3 = "?ds2\<lparr>tenants := AList.update ?tid ?t2 (tenants ?ds2)\<rparr>"
  define dsN where "dsN = (if ?nid \<noteq> [] then ?ds3\<lparr>nodes := (nodes ?ds3)(?nid \<mapsto>
                  (the (nodes ?ds3 ?nid))\<lparr>node_instances := (node_instances (the (nodes ?ds3 ?nid)))(?id := None)\<rparr>)\<rparr>
                else ?ds3)"
  have del: "deleteInstance parseIP dsA ?id = ReleaseTenantIP parseIP dsN ?tid ?ip"
  proof (cases "?nid = []")
    case True
    then show ?thesis using A_inst A_ten by (simp add: deleteInstance_def Let_def dsN_def)
  next
    case False
    with n A_nodes obtain nd where "nodes dsA ?nid = Some nd" by (auto simp: nodeKnown_def)
    with False show ?thesis using A_inst A_ten by (simp add: deleteInstance_def Let_def dsN_def)
  qed
  have tenN: "map_of (tenants dsN) ?tid = Some ?t2" by (simp add: dsN_def update_conv')
  from release_frame [OF tenN rel2] obtain net err where
    r: "ReleaseTenantIP parseIP dsN ?tid ?ip
          = Return (dsN\<lparr>tenants := AList.update ?tid (?t2\<lparr>network := net\<rparr>) (tenants dsN)\<rparr>, err)"
    by blast
  define ds' where "ds' = dsN\<lparr>tenants := AList.update ?tid (?t2\<lparr>network := net\<rparr>) (tenants dsN)\<rparr>"
  have "tenantResources ds' ?tid = Resources t"
    by (simp add: ds'_def tenantResources_def update_conv' usage_restored)
  moreover have "instances ds' ?id = None" by (simp add: ds'_def dsN_def)
  moreover have "instanceLastStat ds' ?id = None" by (simp add: ds'_def dsN_def)
  moreover have "\<not> inTenantMap ds' ?tid ?id" by (simp add: ds'_def inTenantMap_def update_conv')
  moreover have "?nid \<noteq> [] \<longrightarrow> \<not> inNodeMap ds' ?nid ?id"
    by (simp add: ds'_def dsN_def inNodeMap_def)
  moreover have "deleteInstance parseIP dsA ?id = Return (ds', err)"
    using del r by (simp only: ds'_def)
  ultimately show ?thesis unfolding dsA_def by blast
qed

text \<open>
  Claim C5, as the code has it. For an instance whose tenant is in the tenant map, whose
  node ID is empty or names a node of the node map, and whose address does not parse or lies
  in a subnet of the tenant's network table, \<^verbatim>\<open>AddInstance\<close> followed at once by
  \<^verbatim>\<open>DeleteInstance\<close> returns and leaves every usage counter of the tenant, the instance
  count among them, at its value before the \<^verbatim>\<open>AddInstance\<close>; the instance is then absent
  from the global instance map, from the last-known-stats cache, from its tenant's instance
  map and from its node's instance map.
\<close>

theorem add_then_delete:
  "map_of (tenants ds) (Instance_TenantID inst) = Some t \<Longrightarrow> nodeKnown ds inst \<Longrightarrow>
   releasable parseIP t (Instance_IPAddress inst) \<Longrightarrow>
   (case DeleteInstance parseIP (fst (AddInstance ds inst now)) (Instance_ID inst) of
      Panic p \<Rightarrow> False
    | Return (ds', err) \<Rightarrow>
        tenantResources ds' (Instance_TenantID inst) = Resources t
        \<and> instances ds' (Instance_ID inst) = None
        \<and> instanceLastStat ds' (Instance_ID inst) = None
        \<and> \<not> inTenantMap ds' (Instance_TenantID inst) (Instance_ID inst)
        \<and> (Instance_NodeID inst \<noteq> [] \<longrightarrow> \<not> inNodeMap ds' (Instance_NodeID inst) (Instance_ID inst)))"
proof -
  assume "map_of (tenants ds) (Instance_TenantID inst) = Some t" "nodeKnown ds inst"
    "releasable parseIP t (Instance_IPAddress inst)"
  from delete_after_add [OF this, of now] obtain ds' err where
    d: "deleteInstance parseIP (fst (AddInstance ds inst now)) (Instance_ID inst) = Return (ds', err)"
    and p: "tenantResources ds' (Instance_TenantID inst) = Resources t"
      "instances ds' (Instance_ID inst) = None"
      "instanceLastStat ds' (Instance_ID inst) = None"
      "\<not> inTenantMap ds' (Instance_TenantID inst) (Instance_ID inst)"
      "Instance_NodeID inst \<noteq> [] \<longrightarrow> \<not> inNodeMap ds' (Instance_NodeID inst) (Instance_ID inst)"
    by blast
  show ?thesis
    using d p by (cases err) (simp_all add: DeleteInstance_def logEvent_def tenantResources_def inTenantMap_def inNodeMap_def)
qed

theorem add_then_delete_witness:
  "(case DeleteInstance parseExample (fst (AddInstance nodeStore placedInstance 1000)) ''i1'' of
      Panic p \<Rightarrow> False
    | Return (ds', err) \<Rightarrow>
        tenantResources ds' ''t'' = Resources allocatedTenant
        \<and> instances ds' ''i1'' = None
        \<and> instanceLastStat ds' ''i1'' = None
        \<and> \<not> inTenantMap ds' ''t'' ''i1''
        \<and> \<not> inNodeMap ds' ''n1'' ''i1'')"
proof -
  have t: "map_of (tenants nodeStore) (Instance_TenantID placedInstance) = Some allocatedTenant"
    by (simp add: nodeStore_def allocatedStore_def placedInstance_def instance1_def)
  have n: "nodeKnown nodeStore placedInstance"
    by (simp add: nodeKnown_def nodeStore_def placedInstance_def)
  have r: "releasable parseExample allocatedTenant (Instance_IPAddress placedInstance)"
    by (simp add: releasable_def placedInstance_def instance1_def parseExample_def uint_Uint16
        allocatedTenant_def)
  show ?thesis
    using add_then_delete [OF t n r, of 1000]
    by (auto simp: placedInstance_def instance1_def split: outcome.splits)
qed

text \<open>
  The example instance placed on the node n1, added to a datastore that holds its tenant
  and its address but no node n1: \<^verbatim>\<open>DeleteInstance\<close> reads the instance map of a nil node.
\<close>

theorem add_then_delete_counterexample:
  "DeleteInstance parseExample (fst (AddInstance allocatedStore placedInstance 1000)) ''i1''
     = Panic NilPointerDereference"
  by (simp add: DeleteInstance_def deleteInstance_def AddInstance_def Let_def allocatedStore_def
      tenantStore_def emptyDatastore_def placedInstance_def instance1_def)

subsection \<open>Start failures\<close>







text \<open>
  An instance whose tenant the tenant map does not hold (\<^verbatim>\<open>AddInstance\<close> accepts it and
  returns nil): \<^verbatim>\<open>deleteInstance\<close> reads \<^verbatim>\<open>tenant.instances\<close> on the line before its test
  \<^verbatim>\<open>tenant != nil\<close>, so the test, which shows that a missing tenant is meant to be
  survived, protects nothing, and \<^verbatim>\<open>StartFailure\<close> panics on full-cloud.
\<close>

lemma start_failure_missing_tenant:
  "instances (fst (AddInstance tenantStore strayInstance 1000)) ''i1'' = Some strayInstance
   \<and> findCNCI (tenants (fst (AddInstance tenantStore strayInstance 1000))) ''i1'' = None
   \<and> StartFailure parseExample reasonName (fst (AddInstance tenantStore strayInstance 1000)) ''i1'' FullCloud
       = Panic NilPointerDereference"
  by (simp add: StartFailure_def GetInstance_def deleteInstance_def AddInstance_def Let_def
      freshTenant_def tenantStore_def emptyDatastore_def strayInstance_def instance1_def)

subsection \<open>Storage attachments\<close>

text \<open>
  Claim C1, at an input where the code departs from it. The tenant has the volumes vol1 and
  vol2. A report for instance i2 with vol2 attaches it (vol2 in use). A report for instance
  i1 with vol1 then removes the attachment of i2 and makes vol2 available again: the second
  loop ranges over the attachments of every instance and tests only whether the volume is
  in the report.
\<close>

theorem other_instance_detached:
  "(case updateStorageAttachments (uuidFrom 0) volumeStore ''i2'' [''vol2''] of
      Panic p \<Rightarrow> False
    | Return ds1 \<Rightarrow>
        map_of (instanceVolumes ds1) (link ''i2'' ''vol2'') = Some ''uuid-''
        \<and> volumeState ds1 ''vol2'' = Some InUse
        \<and> (case updateStorageAttachments (uuidFrom 1) ds1 ''i1'' [''vol1''] of
              Panic p \<Rightarrow> False
            | Return ds2 \<Rightarrow>
                map_of (instanceVolumes ds2) (link ''i1'' ''vol1'') = Some ''uuid-i''
                \<and> map_of (instanceVolumes ds2) (link ''i2'' ''vol2'') = None
                \<and> attachments ds2 ''uuid-'' = None
                \<and> volumeState ds2 ''vol2'' = Some Available))"
  by (simp add: updateStorageAttachments_def Let_def volumeStore_def emptyDatastore_def okStore_def
      uuidFrom_def link_def GetBlockDevice_def UpdateBlockDevice_def AddBlockDevice_def volume_def
      volumeState_def freshTenant_def zeroStorageAttachment_def)

end
